theory Spec2Isabelle
  imports Complex_Main
begin

section \<open>Decimal values\<close>

text \<open>
  A finite \<^verbatim>\<open>decimal.Decimal\<close> is a signed integer coefficient and a power-of-ten
  exponent; \<open>Decimal c e\<close> stands for the number \<open>c * 10 ^ e\<close>. The application never
  changes the arithmetic context, so sums and differences are rounded to the default 28
  significant digits, ties to even; comparisons are exact. NaN, the infinities and the
  sign of a zero are not represented: no amount read from a \<^verbatim>\<open>DECIMAL(10,2)\<close> column
  and no configured fee is one of them.
\<close>

datatype decimal = Decimal (coeff: int) (expo: int)

definition dec_val :: "decimal \<Rightarrow> rat" where
  "dec_val d = of_int (coeff d) * 10 powi expo d"

definition dec_less :: "decimal \<Rightarrow> decimal \<Rightarrow> bool" where
  "dec_less a b = (dec_val a < dec_val b)"

text \<open>\<open>ndigits n\<close> is \<^verbatim>\<open>len(str(n))\<close>.\<close>

fun ndigits :: "nat \<Rightarrow> nat" where
  "ndigits n = (if n < 10 then 1 else Suc (ndigits (n div 10)))"

declare ndigits.simps [simp del]

text \<open>\<open>round_half_even n k\<close> drops the last \<open>k\<close> decimal digits of \<open>n\<close>, ties to even.\<close>

definition round_half_even :: "nat \<Rightarrow> nat \<Rightarrow> nat" where
  "round_half_even n k =
     (if k = 0 then n
      else let q = n div 10 ^ k; r = n mod 10 ^ k; h = 5 * 10 ^ (k - 1)
           in if h < r \<or> (r = h \<and> odd q) then q + 1 else q)"

definition prec :: nat where
  "prec = 28"

text \<open>The context rounding applied to the exact result of an operation.\<close>

definition dec_fix :: "decimal \<Rightarrow> decimal" where
  "dec_fix d =
     (let n = nat \<bar>coeff d\<bar>; s = (if coeff d < 0 then - 1 else 1); len = ndigits n
      in if len \<le> prec then d
         else let k = len - prec; m = round_half_even n k
              in if prec < ndigits m then Decimal (s * int (m div 10)) (expo d + int k + 1)
                 else Decimal (s * int m) (expo d + int k))"

definition dec_add :: "decimal \<Rightarrow> decimal \<Rightarrow> decimal" where
  "dec_add a b =
     (let e = min (expo a) (expo b)
      in dec_fix (Decimal (coeff a * 10 ^ nat (expo a - e) + coeff b * 10 ^ nat (expo b - e)) e))"

definition dec_sub :: "decimal \<Rightarrow> decimal \<Rightarrow> decimal" where
  "dec_sub a b = dec_add a (Decimal (- coeff b) (expo b))"

text \<open>
  An amount with at most two fractional digits and fewer than 26 integer digits: every
  value of a \<^verbatim>\<open>DECIMAL(10,2)\<close> column is one, and so is the default fee \<open>3000\<close>.
\<close>

definition two_place :: "decimal \<Rightarrow> bool" where
  "two_place d = (- 2 \<le> expo d \<and> \<bar>dec_val d\<bar> < 10 ^ 25)"

section \<open>Invoice pricing\<close>

text \<open>
  The amounts computed by \<^verbatim>\<open>create_invoice\<close> once the plan row has been read and the
  requested discount converted by \<^verbatim>\<open>as_decimal\<close>:
  \<^verbatim>\<open>
    if setup_discount < 0:
        setup_discount = Decimal("0")
    setup_fee_amount = DEFAULT_SETUP_FEE
    if setup_discount > setup_fee_amount:
        setup_discount = setup_fee_amount
    setup_fee_net = setup_fee_amount - setup_discount
    plan_price = as_decimal(plan["price"])
    subtotal = plan_price + setup_fee_net
    tax = Decimal("0")
    total = subtotal
  \<close>
\<close>

record amounts =
  subtotal :: decimal
  tax :: decimal
  total :: decimal
  setup_fee_amount :: decimal
  setup_fee_discount :: decimal
  setup_fee_net :: decimal

definition create_invoice_amounts :: "decimal \<Rightarrow> decimal \<Rightarrow> decimal \<Rightarrow> amounts" where
  "create_invoice_amounts DEFAULT_SETUP_FEE plan_price setup_discount_in =
     (let setup_discount =
            (if dec_less setup_discount_in (Decimal 0 0) then Decimal 0 0 else setup_discount_in);
          fee = DEFAULT_SETUP_FEE;
          setup_discount = (if dec_less fee setup_discount then fee else setup_discount);
          net = dec_sub fee setup_discount;
          sub = dec_add plan_price net
      in \<lparr>subtotal = sub, tax = Decimal 0 0, total = sub, setup_fee_amount = fee,
          setup_fee_discount = setup_discount, setup_fee_net = net\<rparr>)"

section \<open>Values of a JSON payload or a database row\<close>

text \<open>
  A Python \<^verbatim>\<open>float\<close> is a finite binary64 number (given by its exact value), an
  infinity (\<open>True\<close> for the negative one) or NaN.
\<close>

datatype pyfloat = Float rat | FloatInf bool | FloatNaN

text \<open>
  A \<^verbatim>\<open>datetime\<close> by its civil fields: a naive one, as the database connector returns
  it for a TIMESTAMP, or one of the configured zone, as the renderer stores it back.
\<close>

record datetime =
  year :: nat
  month :: nat
  day :: nat
  hour :: nat
  minute :: nat
  second :: nat

datatype pyval =
    PNone
  | PBool bool
  | PInt int
  | PFloat pyfloat
  | PStr string
  | PDecimal decimal
  | PDatetime datetime
  | PList "pyval list"
  | PDict "(string \<times> pyval) list"

text \<open>Python's truth value of an object, as \<^verbatim>\<open>not x\<close> and \<^verbatim>\<open>x or y\<close> test it.\<close>

fun truthy :: "pyval \<Rightarrow> bool" where
  "truthy PNone = False"
| "truthy (PBool b) = b"
| "truthy (PInt n) = (n \<noteq> 0)"
| "truthy (PFloat (Float x)) = (x \<noteq> 0)"
| "truthy (PFloat (FloatInf _)) = True"
| "truthy (PFloat FloatNaN) = True"
| "truthy (PStr s) = (s \<noteq> [])"
| "truthy (PDecimal d) = (coeff d \<noteq> 0)"
| "truthy (PDatetime _) = True"
| "truthy (PList xs) = (xs \<noteq> [])"
| "truthy (PDict kvs) = (kvs \<noteq> [])"

text \<open>\<^verbatim>\<open>payload.get(key)\<close> on the JSON object of a request.\<close>

definition dict_get :: "(string \<rightharpoonup> pyval) \<Rightarrow> string \<Rightarrow> pyval" where
  "dict_get payload k = (case payload k of None \<Rightarrow> PNone | Some v \<Rightarrow> v)"

section \<open>Payment ledger\<close>

text \<open>
  A row of \<^verbatim>\<open>lead_payments\<close> (the column \<^verbatim>\<open>created_at\<close>, which no statement
  of the program writes, is left out). \<^verbatim>\<open>UNIQUE KEY lead_month_unique (lead_id,
  billing_month)\<close> makes the pair of the second and fourth column the key of the upsert.
\<close>

datatype date = Date nat nat nat

record payment =
  p_id :: nat
  p_lead_id :: int
  p_invoice_id :: "int option"
  p_billing_month :: date
  p_amount :: decimal
  p_paid_on :: "date option"
  p_payment_method :: "string option"
  p_note :: "string option"

text \<open>
  The conversions MySQL applies to the parameters of the statement are not code of the
  program: they are parameters of the model. \<open>None\<close> means the server rejects the value
  and the statement fails.
\<close>

record sql_conv =
  sql_date :: "pyval \<Rightarrow> date option"
  sql_decimal :: "pyval \<Rightarrow> decimal option"
  sql_text :: "pyval \<Rightarrow> string option"

record db =
  leads :: "int list"
  lead_payments :: "payment list"
  next_payment_id :: nat

definition payment_key :: "payment \<Rightarrow> int \<times> date" where
  "payment_key r = (p_lead_id r, p_billing_month r)"

text \<open>A nullable column: \<^verbatim>\<open>None\<close> is stored as NULL, anything else is converted.\<close>

definition nullable :: "(pyval \<Rightarrow> 'a option) \<Rightarrow> pyval \<Rightarrow> 'a option option" where
  "nullable conv v = (if v = PNone then Some None else map_option Some (conv v))"

text \<open>
  \<^verbatim>\<open>
  INSERT INTO lead_payments (lead_id, billing_month, amount, paid_on, payment_method, note)
  VALUES (%s, %s, %s, %s, %s, %s)
  ON DUPLICATE KEY UPDATE amount=VALUES(amount), paid_on=VALUES(paid_on),
    payment_method=VALUES(payment_method), note=VALUES(note)
  \<close>
  The statement fails as a whole (\<open>None\<close>, nothing written) when a value is rejected or
  the foreign key \<^verbatim>\<open>lead_id\<close> names no lead.
\<close>

definition on_duplicate_key_update ::
  "decimal \<Rightarrow> date option \<Rightarrow> string option \<Rightarrow> string option \<Rightarrow> payment \<Rightarrow> payment" where
  "on_duplicate_key_update a po pm n r =
     r\<lparr>p_amount := a, p_paid_on := po, p_payment_method := pm, p_note := n\<rparr>"

definition upsert_payment ::
  "sql_conv \<Rightarrow> int \<Rightarrow> pyval \<Rightarrow> pyval \<Rightarrow> pyval \<Rightarrow> pyval \<Rightarrow> pyval \<Rightarrow> db \<Rightarrow> db option" where
  "upsert_payment sql lead_id billing_month amount paid_on payment_method note_text st =
     (case (sql_date sql billing_month, sql_decimal sql amount, nullable (sql_date sql) paid_on,
            nullable (sql_text sql) payment_method, nullable (sql_text sql) note_text) of
        (Some m, Some a, Some po, Some pm, Some n) \<Rightarrow>
          if lead_id \<notin> set (leads st) then None
          else if (lead_id, m) \<in> payment_key ` set (lead_payments st) then
            Some (st\<lparr>lead_payments :=
              map (\<lambda>r. if payment_key r = (lead_id, m) then on_duplicate_key_update a po pm n r
                        else r) (lead_payments st)\<rparr>)
          else
            Some (st\<lparr>lead_payments := lead_payments st @
                       [\<lparr>p_id = next_payment_id st, p_lead_id = lead_id, p_invoice_id = None,
                         p_billing_month = m, p_amount = a, p_paid_on = po,
                         p_payment_method = pm, p_note = n\<rparr>],
                     next_payment_id := Suc (next_payment_id st)\<rparr>)
      | _ \<Rightarrow> None)"

text \<open>
  \<^verbatim>\<open>SELECT * FROM lead_payments WHERE lead_id = %s AND billing_month = %s\<close>, first row.
\<close>

definition select_payment :: "sql_conv \<Rightarrow> int \<Rightarrow> pyval \<Rightarrow> db \<Rightarrow> payment option" where
  "select_payment sql lead_id billing_month st =
     (case sql_date sql billing_month of
        None \<Rightarrow> None
      | Some m \<Rightarrow> find (\<lambda>r. payment_key r = (lead_id, m)) (lead_payments st))"

text \<open>
  The three ways the handler ends: the 400 response of the validation, an exception of
  the database layer (a 500 response), or the JSON of the row read back.
\<close>

datatype response = BadRequest string | ServerError | Ok "payment option"

definition record_payment ::
  "sql_conv \<Rightarrow> int \<Rightarrow> (string \<rightharpoonup> pyval) \<Rightarrow> db \<Rightarrow> response \<times> db" where
  "record_payment sql lead_id payload st =
     (let billing_month = dict_get payload ''billing_month'';
          amount = dict_get payload ''amount''
      in if \<not> truthy billing_month \<or> \<not> truthy amount
         then (BadRequest ''Billing month and amount required'', st)
         else case upsert_payment sql lead_id billing_month amount (dict_get payload ''paid_on'')
                     (dict_get payload ''payment_method'') (dict_get payload ''note'') st of
                None \<Rightarrow> (ServerError, st)
              | Some st' \<Rightarrow> (Ok (select_payment sql lead_id billing_month st'), st'))"

text \<open>A sequence of requests to the endpoint, each on the state the previous one left.\<close>

fun record_payments :: "sql_conv \<Rightarrow> (int \<times> (string \<rightharpoonup> pyval)) list \<Rightarrow> db \<Rightarrow> db" where
  "record_payments sql [] st = st"
| "record_payments sql ((lead_id, payload) # reqs) st =
     record_payments sql reqs (snd (record_payment sql lead_id payload st))"

subsection \<open>A sample of the server's conversions\<close>

text \<open>
  The examples below need concrete conversions. \<open>sample_sql\<close> accepts what every MySQL
  server accepts the same way: a date written \<^verbatim>\<open>YYYY-MM-DD\<close> with a day up to 28, an
  amount given as an integer or as a string of digits below \<open>10 ^ 8\<close> (stored with two
  fractional digits, as \<^verbatim>\<open>DECIMAL(10,2)\<close> does), and a text given as a string. It rejects everything else,
  where a server may accept more.
\<close>

definition digit_val :: "char \<Rightarrow> nat option" where
  "digit_val c = (let n = of_char c :: nat in if 48 \<le> n \<and> n \<le> 57 then Some (n - 48) else None)"

fun nat_of_digits :: "nat \<Rightarrow> string \<Rightarrow> nat option" where
  "nat_of_digits acc [] = Some acc"
| "nat_of_digits acc (c # cs) =
     (case digit_val c of None \<Rightarrow> None | Some v \<Rightarrow> nat_of_digits (10 * acc + v) cs)"

definition parse_nat :: "string \<Rightarrow> nat option" where
  "parse_nat s = (if s = [] then None else nat_of_digits 0 s)"

definition sample_date :: "pyval \<Rightarrow> date option" where
  "sample_date v =
     (case v of
        PStr s \<Rightarrow>
          if length s = 10 \<and> s ! 4 = CHR ''-'' \<and> s ! 7 = CHR ''-'' then
            (case (parse_nat (take 4 s), parse_nat (take 2 (drop 5 s)), parse_nat (drop 8 s)) of
               (Some y, Some m, Some d) \<Rightarrow>
                 if 1 \<le> m \<and> m \<le> 12 \<and> 1 \<le> d \<and> d \<le> 28 then Some (Date y m d) else None
             | _ \<Rightarrow> None)
          else None
      | _ \<Rightarrow> None)"

definition sample_decimal :: "pyval \<Rightarrow> decimal option" where
  "sample_decimal v =
     (case v of
        PInt n \<Rightarrow> if \<bar>n\<bar> < 10 ^ 8 then Some (Decimal (n * 100) (- 2)) else None
      | PStr s \<Rightarrow>
          (case parse_nat s of
             Some n \<Rightarrow> if n < 10 ^ 8 then Some (Decimal (int n * 100) (- 2)) else None
           | None \<Rightarrow> None)
      | _ \<Rightarrow> None)"

definition sample_text :: "pyval \<Rightarrow> string option" where
  "sample_text v = (case v of PStr s \<Rightarrow> Some s | _ \<Rightarrow> None)"

definition sample_sql :: sql_conv where
  "sample_sql = \<lparr>sql_date = sample_date, sql_decimal = sample_decimal, sql_text = sample_text\<rparr>"

section \<open>Invoice numbering\<close>

text \<open>
  \<^verbatim>\<open>str(n)\<close> for a natural number, and the format \<^verbatim>\<open>{n:0wd}\<close> built from it.
  \<open>digit_char\<close> is only applied to a digit below ten.
\<close>

definition digit_char :: "nat \<Rightarrow> char" where
  "digit_char d = ''0123456789'' ! d"

fun str_nat :: "nat \<Rightarrow> string" where
  "str_nat n = (if n < 10 then [digit_char n] else str_nat (n div 10) @ [digit_char (n mod 10)])"

declare str_nat.simps [simp del]

definition zfill :: "nat \<Rightarrow> string \<Rightarrow> string" where
  "zfill w s = replicate (w - length s) (CHR ''0'') @ s"

text \<open>
  The directives \<^verbatim>\<open>%Y\<close> (year with century, four digits for the years 1000 to 9999)
  and \<^verbatim>\<open>%m\<close> (month, two digits) of \<^verbatim>\<open>strftime\<close>.
\<close>

definition strftime_Y :: "datetime \<Rightarrow> string" where
  "strftime_Y t = zfill 4 (str_nat (year t))"

definition strftime_m :: "datetime \<Rightarrow> string" where
  "strftime_m t = zfill 2 (str_nat (month t))"

text \<open>
  \<^verbatim>\<open>
  def next_invoice_number() -> str:
      today = datetime.utcnow()
      prefix = today.strftime("INV%Y%m")
      seq_row = execute(
          "SELECT COUNT(*) FROM invoices WHERE invoice_number LIKE %s", (f"{prefix}%",),
          fetchone=True)
      seq = (seq_row[0] if seq_row else 0) + 1
      return f"{prefix}{seq:04d}"
  \<close>
  The clock's reading \<open>today\<close> and the column \<^verbatim>\<open>invoice_number\<close> of the table are
  inputs. The server's \<^verbatim>\<open>LIKE\<close> (whose comparison depends on the collation) is the
  parameter \<open>like\<close>, applied to the pattern and the stored text.
\<close>

definition invoice_prefix :: "datetime \<Rightarrow> string" where
  "invoice_prefix today = ''INV'' @ strftime_Y today @ strftime_m today"

definition next_invoice_number :: "(string \<Rightarrow> string \<Rightarrow> bool) \<Rightarrow> datetime \<Rightarrow> string list \<Rightarrow> string" where
  "next_invoice_number like today invoice_numbers =
     (let prefix = invoice_prefix today;
          seq = length (filter (like (prefix @ ''%'')) invoice_numbers) + 1
      in prefix @ zfill 4 (str_nat seq))"

text \<open>
  A sample of \<^verbatim>\<open>LIKE\<close> for the examples: a pattern that ends in its only wildcard
  \<^verbatim>\<open>%\<close> matches the texts that start with the rest of the pattern.
\<close>

definition sample_like :: "string \<Rightarrow> string \<Rightarrow> bool" where
  "sample_like pat s = (pat \<noteq> [] \<and> last pat = CHR ''%'' \<and> take (length pat - 1) s = butlast pat)"

text \<open>
  \<open>n\<close> invoices created one after the other while the clock reads \<open>today\<close>: each
  \<^verbatim>\<open>INSERT INTO invoices\<close> of \<^verbatim>\<open>create_invoice\<close> stores the number just allocated.
\<close>

fun allocate :: "(string \<Rightarrow> string \<Rightarrow> bool) \<Rightarrow> datetime \<Rightarrow> nat \<Rightarrow> string list \<Rightarrow> string list" where
  "allocate like today 0 invoice_numbers = invoice_numbers"
| "allocate like today (Suc n) invoice_numbers =
     allocate like today n (invoice_numbers @ [next_invoice_number like today invoice_numbers])"

section \<open>Strings, amounts and dates as the invoice document shows them\<close>

text \<open>\<^verbatim>\<open>str(i)\<close> for an integer.\<close>

definition str_int :: "int \<Rightarrow> string" where
  "str_int i = (if i < 0 then CHR ''-'' # str_nat (nat (- i)) else str_nat (nat i))"

text \<open>
  The format \<^verbatim>\<open>{d:,.2f}\<close> of a Decimal: the value is rescaled to two fractional digits
  (ties to even), the integer digits are grouped in threes by commas, and the sign of a
  negative number is kept.
\<close>

fun commas_rev :: "string \<Rightarrow> string" where
  "commas_rev (a # b # c # d # rest) = a # b # c # CHR '','' # commas_rev (d # rest)"
| "commas_rev ds = ds"

definition group3 :: "string \<Rightarrow> string" where
  "group3 ds = rev (commas_rev (rev ds))"

definition hundredths :: "decimal \<Rightarrow> nat" where
  "hundredths d =
     (if - 2 \<le> expo d then nat \<bar>coeff d\<bar> * 10 ^ nat (expo d + 2)
      else round_half_even (nat \<bar>coeff d\<bar>) (nat (- 2 - expo d)))"

definition format_money :: "decimal \<Rightarrow> string" where
  "format_money d =
     (let h = hundredths d
      in (if coeff d < 0 then ''-'' else '''')
         @ group3 (str_nat (h div 100)) @ ''.'' @ zfill 2 (str_nat (h mod 100)))"

text \<open>The characters of an amount formatted without a sign.\<close>

definition money_chars :: "char set" where
  "money_chars = set ''0123456789,.''"

text \<open>
  \<^verbatim>\<open>as_decimal\<close> on a value read from a \<^verbatim>\<open>DECIMAL\<close> column or missing from the row:
  a Decimal is returned as it is, \<^verbatim>\<open>None\<close> becomes \<^verbatim>\<open>Decimal("0")\<close>.
\<close>

definition as_decimal_db :: "decimal option \<Rightarrow> decimal" where
  "as_decimal_db v = (case v of None \<Rightarrow> Decimal 0 0 | Some d \<Rightarrow> d)"

text \<open>
  \<^verbatim>\<open>x or y\<close> on optional strings (\<^verbatim>\<open>None\<close> and the empty string are false), and
  \<^verbatim>\<open>str(x)\<close> of an optional string.
\<close>

definition str_truthy :: "string option \<Rightarrow> bool" where
  "str_truthy v = (case v of None \<Rightarrow> False | Some s \<Rightarrow> s \<noteq> [])"

definition or_else :: "string option \<Rightarrow> string option \<Rightarrow> string option" where
  "or_else a b = (if str_truthy a then a else b)"

definition or_str :: "string option \<Rightarrow> string \<Rightarrow> string" where
  "or_str a s = (case a of None \<Rightarrow> s | Some t \<Rightarrow> if t \<noteq> [] then t else s)"

definition str_opt :: "string option \<Rightarrow> string" where
  "str_opt v = (case v of None \<Rightarrow> ''None'' | Some s \<Rightarrow> s)"

text \<open>
  \<^verbatim>\<open>
  def wrap_text(text: Optional[str], width: int = 70) -> List[str]:
      if not text:
          return ["NA"]
      return textwrap.wrap(text, width) or ["NA"]
  \<close>
  \<^verbatim>\<open>textwrap.wrap\<close> belongs to the standard library: it is the parameter \<open>wrap\<close>.
\<close>

definition wrap_text :: "(string \<Rightarrow> nat \<Rightarrow> string list) \<Rightarrow> string option \<Rightarrow> nat \<Rightarrow> string list" where
  "wrap_text wrap text width =
     (case text of
        None \<Rightarrow> [''NA'']
      | Some s \<Rightarrow>
          if s = [] then [''NA'']
          else let ls = wrap s width in if ls = [] then [''NA''] else ls)"

text \<open>
  The \<^verbatim>\<open>strftime\<close> directives the renderer uses, in the C locale. A datetime has a
  month from 1 to 12; for any other number \<^verbatim>\<open>%b\<close> is modelled as the empty string.
\<close>

definition month_abbr :: "nat \<Rightarrow> string" where
  "month_abbr m =
     (if 1 \<le> m \<and> m \<le> 12
      then [''Jan'', ''Feb'', ''Mar'', ''Apr'', ''May'', ''Jun'', ''Jul'', ''Aug'', ''Sep'', ''Oct'',
            ''Nov'', ''Dec''] ! (m - 1)
      else [])"

text \<open>\<^verbatim>\<open>%Y%m%dT%H%M%S\<close> and \<^verbatim>\<open>%d %b %Y\<close>.\<close>

definition strftime_stamp :: "datetime \<Rightarrow> string" where
  "strftime_stamp t =
     strftime_Y t @ strftime_m t @ zfill 2 (str_nat (day t)) @ ''T''
     @ zfill 2 (str_nat (hour t)) @ zfill 2 (str_nat (minute t)) @ zfill 2 (str_nat (second t))"

definition strftime_display :: "datetime \<Rightarrow> string" where
  "strftime_display t =
     zfill 2 (str_nat (day t)) @ '' '' @ month_abbr (month t) @ '' '' @ strftime_Y t"

text \<open>
  \<^verbatim>\<open>to_ist_datetime\<close>: \<^verbatim>\<open>None\<close> and the empty string give \<^verbatim>\<open>None\<close>; a naive
  datetime is taken as a time of the configured zone, with its fields unchanged; any other
  value goes through \<^verbatim>\<open>strptime\<close>, \<^verbatim>\<open>fromisoformat\<close> and the zone conversion of the
  standard library, the parameter \<open>parse\<close> (\<open>None\<close> when no format fits).
\<close>

definition to_ist_datetime :: "(pyval \<Rightarrow> datetime option) \<Rightarrow> pyval \<Rightarrow> datetime option" where
  "to_ist_datetime parse v =
     (case v of
        PNone \<Rightarrow> None
      | PDatetime t \<Rightarrow> Some t
      | PStr s \<Rightarrow> if s = [] then None else parse v
      | _ \<Rightarrow> parse v)"

text \<open>
  \<^verbatim>\<open>str.strip()\<close> and \<^verbatim>\<open>str.split("|")\<close>, for the override of the payment lines.
  The white space of \<^verbatim>\<open>strip\<close> is that of the ASCII range.
\<close>

definition is_space :: "char \<Rightarrow> bool" where
  "is_space c = (let n = of_char c :: nat in n = 32 \<or> (9 \<le> n \<and> n \<le> 13) \<or> (28 \<le> n \<and> n \<le> 31))"

definition strip :: "string \<Rightarrow> string" where
  "strip s = rev (dropWhile is_space (rev (dropWhile is_space s)))"

fun split_on :: "char \<Rightarrow> string \<Rightarrow> string list" where
  "split_on sep [] = [[]]"
| "split_on sep (c # cs) =
     (if c = sep then [] # split_on sep cs
      else case split_on sep cs of [] \<Rightarrow> [[c]] | w # ws \<Rightarrow> (c # w) # ws)"

section \<open>Document renderer\<close>

text \<open>
  The row that \<^verbatim>\<open>fetch_invoice_details\<close> reads (the columns the renderer uses): a
  nullable or absent value is \<open>None\<close>, and each field \<open>i_c\<close> is the column \<^verbatim>\<open>c\<close>.
  \<^verbatim>\<open>generated_at\<close> stays a Python value, since \<^verbatim>\<open>to_ist_datetime\<close> inspects it.
\<close>

record invoice =
  i_lead_id :: int
  i_invoice_number :: string
  i_generated_at :: pyval
  i_lead_name :: "string option"
  i_lead_phone :: "string option"
  i_brand_name :: "string option"
  i_lead_email :: "string option"
  i_lead_address :: "string option"
  i_plan_name :: "string option"
  i_plan_price :: "decimal option"
  i_setup_fee_amount :: "decimal option"
  i_setup_fee_discount :: "decimal option"
  i_subtotal :: "decimal option"
  i_tax :: "decimal option"
  i_total :: "decimal option"

text \<open>An image that \<^verbatim>\<open>ImageReader\<close> has decoded, named by the source of its bytes.\<close>

datatype image = ImageReader string

text \<open>
  What the renderer reads from outside the program: the standard library and ReportLab
  (\<^verbatim>\<open>textwrap.wrap\<close>, the height \<^verbatim>\<open>Table.wrap\<close> computes, the parsing of dates), the file
  system and the network (\<open>None\<close> where opening, fetching or decoding raises), the clock,
  and the configuration read from the process environment.
\<close>

record env =
  textwrap_wrap :: "string \<Rightarrow> nat \<Rightarrow> string list"
  table_height :: "string list list \<Rightarrow> rat"
  parse_datetime :: "pyval \<Rightarrow> datetime option"
  now_ist :: datetime
  logo_path_exists :: bool
  logo_path_resolved :: string
  open_logo :: "image option"
  http_get_image :: "string \<Rightarrow> image option"
  NEIGHSHOP_LOGO_URL :: string
  DEFAULT_BANK_ACCOUNT :: string
  DEFAULT_BANK_NAME :: string
  DEFAULT_ACCOUNT_NUMBER :: string
  DEFAULT_UPI_LABEL :: string
  INVOICE_PAYMENT_LINES :: "string option"

text \<open>
  \<^verbatim>\<open>LOGO_CACHE\<close> maps a key to an image or to \<^verbatim>\<open>None\<close>; \<^verbatim>\<open>LOGO_CACHE.get(key)\<close> is
  \<^verbatim>\<open>None\<close> for a missing key as well.
\<close>

type_synonym logo_cache = "string \<rightharpoonup> image option"

definition cache_get :: "logo_cache \<Rightarrow> string \<Rightarrow> image option" where
  "cache_get cache k = (case cache k of None \<Rightarrow> None | Some v \<Rightarrow> v)"

text \<open>
  \<^verbatim>\<open>
  def get_logo_image(url: Optional[str]) -> Optional[ImageReader]:
      if url == "local_neighshop" and NEIGHSHOP_LOGO_PATH.exists():
          cache_key = str(NEIGHSHOP_LOGO_PATH.resolve())
          cached = LOGO_CACHE.get(cache_key)
          if cached is not None:
              return cached
          try:
              with NEIGHSHOP_LOGO_PATH.open("rb") as file_handler:
                  cached = ImageReader(file_handler)
          except Exception as exc:
              cached = None
          LOGO_CACHE[cache_key] = cached
          return cached
      if not url:
          return None
      cached = LOGO_CACHE.get(url)
      if cached is not None:
          return cached
      try:
          response = requests.get(url, timeout=10)
          response.raise_for_status()
          cached = ImageReader(io.BytesIO(response.content))
      except Exception as exc:
          cached = None
      LOGO_CACHE[url] = cached
      return cached
  \<close>
\<close>

definition get_logo_image :: "env \<Rightarrow> string option \<Rightarrow> logo_cache \<Rightarrow> image option \<times> logo_cache" where
  "get_logo_image e url cache =
     (if url = Some ''local_neighshop'' \<and> logo_path_exists e then
        (let cache_key = logo_path_resolved e in
         case cache_get cache cache_key of
           Some img \<Rightarrow> (Some img, cache)
         | None \<Rightarrow> (open_logo e, cache(cache_key \<mapsto> open_logo e)))
      else case url of
        None \<Rightarrow> (None, cache)
      | Some u \<Rightarrow>
          if u = [] then (None, cache)
          else (case cache_get cache u of
                  Some img \<Rightarrow> (Some img, cache)
                | None \<Rightarrow> (http_get_image e u, cache(u \<mapsto> http_get_image e u))))"

text \<open>
  The calls on the canvas, in the order the renderer makes them. Positions are points;
  the program computes them in binary floating point, the model in exact rationals.
  The style of the table is a constant of the program and is not recorded.
\<close>

datatype canvas_op =
    SetFillColor string
  | SetStrokeColor string
  | SetFont string nat
  | DrawImage image rat rat rat rat
  | DrawString rat rat string
  | Line rat rat rat rat
  | DrawTable "string list list" rat rat
  | ShowPage
  | Save

definition mm :: rat where
  "mm = 72 / 254 * 10"

definition page_width :: rat where
  "page_width = 210 * mm"

definition page_height :: rat where
  "page_height = 297 * mm"

definition margin :: rat where
  "margin = 20 * mm"

definition row_height :: rat where
  "row_height = 16"

text \<open>
  \<^verbatim>\<open>
  def draw_field(label, value, start_x, start_y) -> float:
      pdf_canvas.setFont("Helvetica-Bold", 10)
      pdf_canvas.drawString(start_x, start_y, f"{label}:")
      pdf_canvas.setFont("Helvetica", 10)
      current_y = start_y
      for idx, line in enumerate(wrap_text(value)):
          if idx == 0:
              pdf_canvas.drawString(start_x + 60, current_y, line)
          else:
              current_y -= row_height
              pdf_canvas.drawString(start_x + 60, current_y, line)
      return current_y - row_height
  \<close>
  The loop is \<open>draw_lines\<close>: it returns the calls and the last \<^verbatim>\<open>current_y\<close>.
\<close>

fun draw_lines :: "rat \<Rightarrow> rat \<Rightarrow> bool \<Rightarrow> string list \<Rightarrow> canvas_op list \<times> rat" where
  "draw_lines x y first [] = ([], y)"
| "draw_lines x y first (l # ls) =
     (let y' = (if first then y else y - row_height);
          (ops, y_end) = draw_lines x y' False ls
      in (DrawString x y' l # ops, y_end))"

definition draw_field ::
  "(string \<Rightarrow> nat \<Rightarrow> string list) \<Rightarrow> string \<Rightarrow> string option \<Rightarrow> rat \<Rightarrow> rat \<Rightarrow> canvas_op list \<times> rat" where
  "draw_field wrap label v start_x start_y =
     (let (ops, current_y) = draw_lines (start_x + 60) start_y True (wrap_text wrap v 70)
      in ([SetFont ''Helvetica-Bold'' 10, DrawString start_x start_y (label @ '':''),
           SetFont ''Helvetica'' 10] @ ops,
          current_y - row_height))"

text \<open>A loop that draws one line per iteration and moves the cursor down by \<open>step\<close>.\<close>

fun draw_down :: "rat \<Rightarrow> rat \<Rightarrow> rat \<Rightarrow> string list \<Rightarrow> canvas_op list \<times> rat" where
  "draw_down x y step [] = ([], y)"
| "draw_down x y step (l # ls) =
     (let (ops, y_end) = draw_down x (y - step) step ls in (DrawString x y l # ops, y_end))"

text \<open>
  \<^verbatim>\<open>
  for label, value in left_fields:
      left_y = draw_field(label, value or "NA", left_column_x, left_y)
  \<close>
\<close>

fun draw_left_fields ::
  "(string \<Rightarrow> nat \<Rightarrow> string list) \<Rightarrow> rat \<Rightarrow> rat \<Rightarrow> (string \<times> string option) list
     \<Rightarrow> canvas_op list \<times> rat" where
  "draw_left_fields wrap x y [] = ([], y)"
| "draw_left_fields wrap x y ((label, v) # fs) =
     (let (ops1, y1) = draw_field wrap label (Some (or_str v ''NA'')) x y;
          (ops2, y2) = draw_left_fields wrap x y1 fs
      in (ops1 @ ops2, y2))"

text \<open>
  \<^verbatim>\<open>
  for label, value in right_fields:
      pdf_canvas.setFont("Helvetica-Bold", 10)
      pdf_canvas.drawString(right_column_x, right_y, f"{label}:")
      pdf_canvas.setFont("Helvetica", 10)
      pdf_canvas.drawString(right_column_x + 80, right_y, str(value or "NA"))
      right_y -= row_height
  \<close>
\<close>

fun draw_right_fields :: "rat \<Rightarrow> rat \<Rightarrow> (string \<times> string option) list \<Rightarrow> canvas_op list \<times> rat" where
  "draw_right_fields x y [] = ([], y)"
| "draw_right_fields x y ((label, v) # fs) =
     (let (ops, y_end) = draw_right_fields x (y - row_height) fs
      in ([SetFont ''Helvetica-Bold'' 10, DrawString x y (label @ '':''),
           SetFont ''Helvetica'' 10, DrawString (x + 80) y (or_str v ''NA'')] @ ops,
          y_end))"

text \<open>
  \<^verbatim>\<open>
  def format_invoice_date(value: Any) -> str:
      dt_value = to_ist_datetime(value) or datetime.now(IST)
      return dt_value.strftime("%d %b %Y")
  \<close>
\<close>

definition format_invoice_date :: "env \<Rightarrow> pyval \<Rightarrow> string" where
  "format_invoice_date e v =
     strftime_display (case to_ist_datetime (parse_datetime e) v of Some t \<Rightarrow> t | None \<Rightarrow> now_ist e)"

text \<open>
  \<^verbatim>\<open>
  cost_rows = [
      ["Description", "Amount (INR)"],
      [f"Plan - {invoice.get('plan_name')}", f"{plan_price:,.2f}"],
      ["One-time Setup Fee", f"{setup_fee_amount:,.2f}"],
  ]
  if setup_discount > 0:
      cost_rows.append(["One-time Discount", f"-{setup_discount:,.2f}"])
  cost_rows.extend([["Subtotal", f"{subtotal:,.2f}"], ["Grand Total", f"{total_due:,.2f}"]])
  \<close>
\<close>

definition cost_rows :: "invoice \<Rightarrow> string list list" where
  "cost_rows invoice =
     (let plan_price = as_decimal_db (i_plan_price invoice);
          setup_fee_amount = as_decimal_db (i_setup_fee_amount invoice);
          setup_discount = as_decimal_db (i_setup_fee_discount invoice);
          subtotal = as_decimal_db (i_subtotal invoice);
          total_due = as_decimal_db (i_total invoice)
      in [[''Description'', ''Amount (INR)''],
          [''Plan - '' @ str_opt (i_plan_name invoice), format_money plan_price],
          [''One-time Setup Fee'', format_money setup_fee_amount]]
         @ (if dec_less (Decimal 0 0) setup_discount
            then [[''One-time Discount'', ''-'' @ format_money setup_discount]] else [])
         @ [[''Subtotal'', format_money subtotal],
            [''Grand Total'', format_money total_due]])"

text \<open>
  \<^verbatim>\<open>
  payment_lines_raw = os.getenv("INVOICE_PAYMENT_LINES")
  if payment_lines_raw:
      payment_lines = [line.strip() for line in payment_lines_raw.split("|") if line.strip()]
  else:
      payment_lines = default_payment_lines
  \<close>
\<close>

definition payment_lines :: "env \<Rightarrow> string list" where
  "payment_lines e =
     (let default_payment_lines =
            [''Bank Name: '' @ DEFAULT_BANK_ACCOUNT e,
             ''Account Holder: '' @ DEFAULT_BANK_NAME e,
             ''Account Number: '' @ DEFAULT_ACCOUNT_NUMBER e,
             ''UPI: '' @ DEFAULT_UPI_LABEL e]
      in case INVOICE_PAYMENT_LINES e of
           None \<Rightarrow> default_payment_lines
         | Some raw \<Rightarrow>
             if raw = [] then default_payment_lines
             else map strip (filter (\<lambda>l. strip l \<noteq> []) (split_on (CHR ''|'') raw)))"

definition business_address :: string where
  "business_address = ''Shri Ram Nagar, 8-B, opp. Dhanwantri Hospital & Research Centre, near New Sanganer Road, Mansarovar, Jaipur, Rajasthan 302020''"

definition qr_url :: string where
  "qr_url = ''https://github.com/AKM-dv/servicemate/blob/main/WhatsApp%20Image%202025-11-07%20at%2001.24.34.jpeg?raw=true''"

text \<open>
  The header of the page: the logo when there is one, and the position of the text
  beside it or at the margin.
  \<^verbatim>\<open>
  text_x = margin
  if neigh_logo:
      logo_size = 32 * mm
      pdf_canvas.drawImage(neigh_logo, margin, header_top - logo_size + 35,
                           width=logo_size, height=logo_size, ...)
      text_x = margin + logo_size + 10
      current_y = header_top - 8
  else:
      current_y = header_top - 12
  \<close>
\<close>

definition header_logo :: "image option \<Rightarrow> canvas_op list \<times> rat \<times> rat" where
  "header_logo neigh_logo =
     (let header_top = page_height - margin in
      case neigh_logo of
        Some img \<Rightarrow>
          (let logo_size = 32 * mm
           in ([DrawImage img margin (header_top - logo_size + 35) logo_size logo_size],
               margin + logo_size + 10, header_top - 8))
      | None \<Rightarrow> ([], margin, header_top - 12))"

text \<open>
  The body of \<^verbatim>\<open>generate_invoice_pdf\<close> between the creation of the canvas and
  \<^verbatim>\<open>save()\<close> runs through six blocks. Each block below returns its calls on the
  canvas and the cursor \<^verbatim>\<open>y_position\<close> it leaves to the next one.

  The header: logo, title, the wrapped address with the contact line, and the rule.
\<close>

definition header_ops :: "env \<Rightarrow> image option \<Rightarrow> canvas_op list \<times> rat" where
  "header_ops e neigh_logo =
     (let (logo_ops, text_x, current_y) = header_logo neigh_logo;
          title_ops = [SetFillColor ''#0F172A'', SetFont ''Helvetica-Bold'' 18,
                       DrawString text_x current_y ''Neighshop Global''];
          current_y = current_y - 18;
          address_lines = wrap_text (textwrap_wrap e) (Some business_address) 80 @ [''+91 8307802643''];
          (address_ops, current_y) = draw_down text_x current_y 11 address_lines;
          y_position = current_y - 6;
          rule_ops = [SetStrokeColor ''#CBD5F5'',
                      Line margin y_position (page_width - margin) y_position]
      in (logo_ops @ title_ops @ [SetFont ''Helvetica'' 9] @ address_ops @ rule_ops,
          y_position - 16))"

text \<open>
  The two columns.
  \<^verbatim>\<open>
  left_fields = [
      ("Client", invoice.get("lead_name") or invoice.get("lead_phone")),
      ("Brand", invoice.get("brand_name")),
      ("Email", invoice.get("lead_email")),
      ("Phone", invoice.get("lead_phone")),
      ("Address", invoice.get("lead_address")),
  ]
  right_fields = [
      ("Invoice #", invoice["invoice_number"]),
      ("Invoice Date", format_invoice_date(generated_dt)),
      ("Plan", invoice.get("plan_name")),
  ]
  \<close>
\<close>

definition left_fields :: "invoice \<Rightarrow> (string \<times> string option) list" where
  "left_fields invoice =
     [(''Client'', or_else (i_lead_name invoice) (i_lead_phone invoice)),
      (''Brand'', i_brand_name invoice),
      (''Email'', i_lead_email invoice),
      (''Phone'', i_lead_phone invoice),
      (''Address'', i_lead_address invoice)]"

definition right_fields :: "env \<Rightarrow> invoice \<Rightarrow> datetime \<Rightarrow> (string \<times> string option) list" where
  "right_fields e invoice generated_dt =
     [(''Invoice #'', Some (i_invoice_number invoice)),
      (''Invoice Date'', Some (format_invoice_date e (PDatetime generated_dt))),
      (''Plan'', i_plan_name invoice)]"

definition parties_ops :: "env \<Rightarrow> invoice \<Rightarrow> datetime \<Rightarrow> rat \<Rightarrow> canvas_op list \<times> rat" where
  "parties_ops e invoice generated_dt y_position =
     (let left_column_x = margin;
          right_column_x = page_width / 2 + 16 * mm;
          (left_ops, left_y) =
             draw_left_fields (textwrap_wrap e) left_column_x y_position (left_fields invoice);
          (right_ops, right_y) =
             draw_right_fields right_column_x y_position (right_fields e invoice generated_dt)
      in ([SetFillColor ''black''] @ left_ops @ right_ops, min left_y right_y - 20))"

text \<open>
  The cost table.
  \<^verbatim>\<open>
  table_width, table_height = table.wrap(0, 0)
  table.drawOn(pdf_canvas, margin, y_position - table_height)
  y_position = y_position - table_height - 36
  \<close>
\<close>

definition table_ops :: "env \<Rightarrow> invoice \<Rightarrow> rat \<Rightarrow> canvas_op list \<times> rat" where
  "table_ops e invoice y_position =
     (let rows = cost_rows invoice;
          table_h = table_height e rows
      in ([DrawTable rows margin (y_position - table_h)], y_position - table_h - 36))"

text \<open>The payment instructions.\<close>

definition payment_ops :: "env \<Rightarrow> rat \<Rightarrow> canvas_op list \<times> rat" where
  "payment_ops e y_position =
     (let pay_head = [SetFont ''Helvetica-Bold'' 12, DrawString margin y_position ''Payment Details'',
                      SetFont ''Helvetica'' 10];
          (pay_ops, y_end) = draw_down margin (y_position - 16) 14 (payment_lines e)
      in (pay_head @ pay_ops, y_end))"

text \<open>
  The QR image with its caption, when \<^verbatim>\<open>get_logo_image\<close> returned one.
  \<^verbatim>\<open>
  if qr_image:
      qr_size = 100
      qr_x = margin
      qr_y = y_position - qr_size - 8
      pdf_canvas.drawImage(qr_image, qr_x, qr_y, width=qr_size, height=qr_size, ...)
      pdf_canvas.setFont("Helvetica", 9)
      pdf_canvas.drawString(qr_x, qr_y - 6, "Scan UPI: 8307802643@axl")
      y_position = qr_y - 20
  \<close>
\<close>

definition qr_ops :: "image option \<Rightarrow> rat \<Rightarrow> canvas_op list \<times> rat" where
  "qr_ops qr_image y_position =
     (case qr_image of
        Some img \<Rightarrow>
          (let qr_size = 100; qr_x = margin; qr_y = y_position - qr_size - 8
           in ([DrawImage img qr_x qr_y qr_size qr_size, SetFont ''Helvetica'' 9,
                DrawString qr_x (qr_y - 6) ''Scan UPI: 8307802643@axl''],
               qr_y - 20))
      | None \<Rightarrow> ([], y_position))"

text \<open>The closing line, \<^verbatim>\<open>showPage()\<close> and \<^verbatim>\<open>save()\<close>.\<close>

definition footer_ops :: "rat \<Rightarrow> canvas_op list" where
  "footer_ops y_position =
     [SetFont ''Helvetica'' 10,
      DrawString margin (y_position - 8) ''Thank you for choosing Neighshop Global.'',
      ShowPage, Save]"

definition invoice_canvas_ops :: "env \<Rightarrow> invoice \<Rightarrow> datetime \<Rightarrow> image option \<Rightarrow> image option \<Rightarrow> canvas_op list" where
  "invoice_canvas_ops e invoice generated_dt neigh_logo qr_image =
     (let (head, y_position) = header_ops e neigh_logo;
          (parties, y_position) = parties_ops e invoice generated_dt y_position;
          (table, y_position) = table_ops e invoice y_position;
          (payment, y_position) = payment_ops e y_position;
          (qr, y_position) = qr_ops qr_image y_position
      in head @ parties @ table @ payment @ qr @ footer_ops y_position)"

text \<open>
  \<^verbatim>\<open>
  def generate_invoice_pdf(invoice: Dict[str, Any]) -> str:
      generated_dt = to_ist_datetime(invoice.get("generated_at")) or datetime.now(IST)
      timestamp_str = generated_dt.strftime("%Y%m%dT%H%M%S")
      pdf_filename = f"INV_{timestamp_str}_{invoice.get('lead_id')}.pdf"
      pdf_path = storage_path / pdf_filename
      pdf_canvas = canvas.Canvas(str(pdf_path), pagesize=A4)
      neigh_logo = get_logo_image(
          "local_neighshop" if NEIGHSHOP_LOGO_PATH.exists() else NEIGHSHOP_LOGO_URL)
      ...
      pdf_canvas.showPage()
      pdf_canvas.save()
      invoice["generated_at"] = generated_dt
      return f"/files/invoices/{pdf_filename}"
  \<close>
  The state is the image cache and the directory \<^verbatim>\<open>INVOICE_PDF_DIR\<close>, a map from file
  names to the documents saved under them; \<^verbatim>\<open>save()\<close> writes the file of the path the
  canvas was created with, replacing a file of that name. The function returns the URL
  and the invoice with its \<^verbatim>\<open>generated_at\<close> set.
\<close>

record render_state =
  LOGO_CACHE :: logo_cache
  pdf_dir :: "string \<rightharpoonup> canvas_op list"

definition generated_dt_of :: "env \<Rightarrow> invoice \<Rightarrow> datetime" where
  "generated_dt_of e invoice =
     (case to_ist_datetime (parse_datetime e) (i_generated_at invoice) of
        Some t \<Rightarrow> t | None \<Rightarrow> now_ist e)"

definition pdf_filename :: "env \<Rightarrow> invoice \<Rightarrow> string" where
  "pdf_filename e invoice =
     ''INV_'' @ strftime_stamp (generated_dt_of e invoice) @ ''_'' @ str_int (i_lead_id invoice)
     @ ''.pdf''"

definition generate_invoice_pdf :: "env \<Rightarrow> invoice \<Rightarrow> render_state \<Rightarrow> string \<times> invoice \<times> render_state" where
  "generate_invoice_pdf e invoice st =
     (let generated_dt = generated_dt_of e invoice;
          name = pdf_filename e invoice;
          (neigh_logo, cache1) =
             get_logo_image e
               (Some (if logo_path_exists e then ''local_neighshop'' else NEIGHSHOP_LOGO_URL e))
               (LOGO_CACHE st);
          (qr_image, cache2) = get_logo_image e (Some qr_url) cache1;
          doc = invoice_canvas_ops e invoice generated_dt neigh_logo qr_image
      in (''/files/invoices/'' @ name,
          invoice\<lparr>i_generated_at := PDatetime generated_dt\<rparr>,
          \<lparr>LOGO_CACHE = cache2, pdf_dir = (pdf_dir st)(name \<mapsto> doc)\<rparr>))"

text \<open>What a reader of the document sees: the strings, the tables and the images drawn.\<close>

fun drawn_texts :: "canvas_op list \<Rightarrow> string list" where
  "drawn_texts [] = []"
| "drawn_texts (DrawString x y s # ops) = s # drawn_texts ops"
| "drawn_texts (_ # ops) = drawn_texts ops"

fun drawn_tables :: "canvas_op list \<Rightarrow> string list list list" where
  "drawn_tables [] = []"
| "drawn_tables (DrawTable rows x y # ops) = rows # drawn_tables ops"
| "drawn_tables (_ # ops) = drawn_tables ops"

fun drawn_images :: "canvas_op list \<Rightarrow> image list" where
  "drawn_images [] = []"
| "drawn_images (DrawImage img x y w h # ops) = img # drawn_images ops"
| "drawn_images (_ # ops) = drawn_images ops"

text \<open>
  A field of the left column as the document shows it: the label in bold at the margin,
  and the lines of the value beside it, the first one on the line of the label.
\<close>

definition shows_field :: "canvas_op list \<Rightarrow> string \<Rightarrow> string list \<Rightarrow> bool" where
  "shows_field doc label ls =
     (\<exists>before after y.
        doc = before
              @ [SetFont ''Helvetica-Bold'' 10, DrawString margin y (label @ '':''),
                 SetFont ''Helvetica'' 10]
              @ fst (draw_lines (margin + 60) y True ls) @ after)"

subsection \<open>A sample environment and a sample invoice\<close>

text \<open>
  For the examples: a greedy word wrap, which gives the lines of \<^verbatim>\<open>textwrap.wrap\<close> for
  the texts used below (words shorter than the width, single spaces, no break at a
  hyphen); the configuration with its default values; no logo file on disk and no
  network; a table of 18 points per row. The clock is left open.
\<close>

fun pack :: "nat \<Rightarrow> string \<Rightarrow> string list \<Rightarrow> string list" where
  "pack w cur [] = (if cur = [] then [] else [cur])"
| "pack w cur (x # xs) =
     (if cur = [] then pack w x xs
      else if length cur + 1 + length x \<le> w then pack w (cur @ '' '' @ x) xs
      else cur # pack w x xs)"

definition sample_wrap :: "string \<Rightarrow> nat \<Rightarrow> string list" where
  "sample_wrap text width = pack width [] (filter (\<lambda>x. x \<noteq> []) (split_on (CHR '' '') text))"

definition sample_env :: "datetime \<Rightarrow> env" where
  "sample_env now =
     \<lparr>textwrap_wrap = sample_wrap,
      table_height = (\<lambda>rows. 18 * of_nat (length rows)),
      parse_datetime = (\<lambda>v. None),
      now_ist = now,
      logo_path_exists = False,
      logo_path_resolved = ''/app/logo.png'',
      open_logo = None,
      http_get_image = (\<lambda>url. None),
      NEIGHSHOP_LOGO_URL = ''https://github.com/AKM-dv/servicemate/blob/main/logo-details%202.png?raw=true'',
      DEFAULT_BANK_ACCOUNT = ''STATE BANK OF INDIA'',
      DEFAULT_BANK_NAME = ''Suman Kumari'',
      DEFAULT_ACCOUNT_NUMBER = ''42213259870'',
      DEFAULT_UPI_LABEL = ''8307802643@axl'',
      INVOICE_PAYMENT_LINES = None\<rparr>"

text \<open>
  An invoice of client 7, who has a phone number but no name, brand, email or address:
  plan price 499.00, setup fee 3000.00, discount 500.00.
\<close>

definition sample_invoice :: invoice where
  "sample_invoice =
     \<lparr>i_lead_id = 7,
      i_invoice_number = ''INV2025110007'',
      i_generated_at = PDatetime \<lparr>year = 2025, month = 11, day = 3, hour = 9, minute = 30, second = 0\<rparr>,
      i_lead_name = None,
      i_lead_phone = Some ''9876543210'',
      i_brand_name = None,
      i_lead_email = None,
      i_lead_address = None,
      i_plan_name = Some ''Growth'',
      i_plan_price = Some (Decimal 49900 (- 2)),
      i_setup_fee_amount = Some (Decimal 300000 (- 2)),
      i_setup_fee_discount = Some (Decimal 50000 (- 2)),
      i_subtotal = Some (Decimal 299900 (- 2)),
      i_tax = Some (Decimal 0 (- 2)),
      i_total = Some (Decimal 299900 (- 2))\<rparr>"

section \<open>Serialization of an invoice record\<close>

text \<open>
  \<^verbatim>\<open>float(d)\<close> for a Decimal: the binary64 number nearest to the value, ties to even
  (an infinity beyond the range). The value \<open>p / q\<close> lies in \<open>[2 ^ k, 2 ^ (k + 1))\<close> for
  \<open>k = floor_log2 p q\<close>; the result is a multiple of \<open>2 ^ e\<close> with \<open>e = k - 52\<close>, or
  \<open>e = - 1074\<close> for a subnormal number.
\<close>

fun bit_length :: "nat \<Rightarrow> nat" where
  "bit_length n = (if n = 0 then 0 else Suc (bit_length (n div 2)))"

declare bit_length.simps [simp del]

definition floor_log2 :: "nat \<Rightarrow> nat \<Rightarrow> int" where
  "floor_log2 p q =
     (let d = int (bit_length p) - int (bit_length q)
      in if (0 \<le> d \<and> q * 2 ^ nat d \<le> p) \<or> (d < 0 \<and> q \<le> p * 2 ^ nat (- d)) then d else d - 1)"

definition round_nearest_even :: "nat \<Rightarrow> nat \<Rightarrow> nat" where
  "round_nearest_even n d =
     (let q = n div d; r = n mod d
      in if d < 2 * r \<or> (2 * r = d \<and> odd q) then q + 1 else q)"

definition float_of_decimal :: "decimal \<Rightarrow> pyfloat" where
  "float_of_decimal d =
     (let c = nat \<bar>coeff d\<bar>;
          p = (if 0 \<le> expo d then c * 10 ^ nat (expo d) else c);
          q = (if 0 \<le> expo d then 1 else 10 ^ nat (- expo d))
      in if c = 0 then Float 0
         else let e = max (floor_log2 p q - 52) (- 1074);
                  m = (if 0 \<le> e then round_nearest_even p (q * 2 ^ nat e)
                       else round_nearest_even (p * 2 ^ nat (- e)) q)
              in if 0 \<le> e \<and> 2 ^ 1024 \<le> m * 2 ^ nat e then FloatInf (coeff d < 0)
                 else Float ((if coeff d < 0 then - 1 else 1) * of_nat m * 2 powi e))"

text \<open>
  \<^verbatim>\<open>
  def as_decimal(value: Any) -> Decimal:
      if isinstance(value, Decimal):
          return value
      if value is None:
          return Decimal("0")
      return Decimal(str(value))

  def parse_decimal(value: Any) -> float:
      return float(as_decimal(value))
  \<close>
  \<^verbatim>\<open>Decimal(str(value))\<close> is exact for an integer. For a string or a float it is the
  standard library's parsing, the parameter \<open>decimal_str\<close>, which is \<open>None\<close> where the
  constructor raises \<^verbatim>\<open>InvalidOperation\<close> (or gives NaN or an infinity, which the
  model does not hold). The text of any other value is no number, and the constructor
  raises.
\<close>

definition as_decimal :: "(pyval \<Rightarrow> decimal option) \<Rightarrow> pyval \<Rightarrow> decimal option" where
  "as_decimal decimal_str v =
     (case v of
        PDecimal d \<Rightarrow> Some d
      | PNone \<Rightarrow> Some (Decimal 0 0)
      | PInt n \<Rightarrow> Some (Decimal n 0)
      | PStr s \<Rightarrow> decimal_str v
      | PFloat x \<Rightarrow> decimal_str v
      | _ \<Rightarrow> None)"

definition parse_decimal :: "(pyval \<Rightarrow> decimal option) \<Rightarrow> pyval \<Rightarrow> pyfloat option" where
  "parse_decimal decimal_str v = map_option float_of_decimal (as_decimal decimal_str v)"

text \<open>
  What the serializer reads from outside the program: the constructor above, the parsing
  of dates, \<^verbatim>\<open>datetime.isoformat\<close>, and \<^verbatim>\<open>request.host_url\<close> (\<open>None\<close> outside a request).
\<close>

record wire =
  decimal_str :: "pyval \<Rightarrow> decimal option"
  wire_parse_datetime :: "pyval \<Rightarrow> datetime option"
  isoformat :: "datetime \<Rightarrow> string"
  host_url :: "string option"

datatype py_error = InvalidOperation | AttributeError

text \<open>
  \<^verbatim>\<open>
  def absolute_invoice_url(path: Optional[str]) -> Optional[str]:
      if not path:
          return None
      if path.startswith("http://") or path.startswith("https://"):
          return path
      if has_request_context():
          base = request.host_url.rstrip("/")
          return f"{base}{path}"
      return path
  \<close>
  A true value that is no string has no \<^verbatim>\<open>startswith\<close>.
\<close>

definition startswith :: "string \<Rightarrow> string \<Rightarrow> bool" where
  "startswith s p = (take (length p) s = p)"

definition rstrip_slash :: "string \<Rightarrow> string" where
  "rstrip_slash s = rev (dropWhile (\<lambda>c. c = CHR ''/'') (rev s))"

definition absolute_invoice_url :: "wire \<Rightarrow> pyval \<Rightarrow> py_error + pyval" where
  "absolute_invoice_url w path =
     (if \<not> truthy path then Inr PNone
      else case path of
        PStr s \<Rightarrow>
          if startswith s ''http://'' \<or> startswith s ''https://'' then Inr (PStr s)
          else (case host_url w of
                  Some h \<Rightarrow> Inr (PStr (rstrip_slash h @ s))
                | None \<Rightarrow> Inr (PStr s))
      | _ \<Rightarrow> Inl AttributeError)"

text \<open>
  \<^verbatim>\<open>
  def serialize_invoice_record(invoice: Dict[str, Any]) -> Dict[str, Any]:
      record = dict(invoice)
      numeric_fields = ["subtotal", "tax", "total", "setup_fee_amount",
                        "setup_fee_discount", "setup_fee_net", "plan_price"]
      for field in numeric_fields:
          if field in record:
              record[field] = parse_decimal(record[field])
      generated_dt = to_ist_datetime(record.get("generated_at"))
      record["generated_at"] = generated_dt.isoformat() if generated_dt else None
      created_dt = to_ist_datetime(record.get("created_at"))
      record["created_at"] = created_dt.isoformat() if created_dt else None
      updated_dt = to_ist_datetime(record.get("updated_at"))
      record["updated_at"] = updated_dt.isoformat() if updated_dt else None
      record["pdf_url"] = absolute_invoice_url(record.get("pdf_url"))
      return record
  \<close>
\<close>

definition numeric_fields :: "string list" where
  "numeric_fields = [''subtotal'', ''tax'', ''total'', ''setup_fee_amount'', ''setup_fee_discount'',
                     ''setup_fee_net'', ''plan_price'']"

fun convert_fields ::
  "wire \<Rightarrow> string list \<Rightarrow> (string \<rightharpoonup> pyval) \<Rightarrow> py_error + (string \<rightharpoonup> pyval)" where
  "convert_fields w [] record = Inr record"
| "convert_fields w (field # fs) record =
     (case record field of
        None \<Rightarrow> convert_fields w fs record
      | Some v \<Rightarrow>
          (case parse_decimal (decimal_str w) v of
             None \<Rightarrow> Inl InvalidOperation
           | Some x \<Rightarrow> convert_fields w fs (record(field \<mapsto> PFloat x))))"

definition iso_or_none :: "wire \<Rightarrow> pyval \<Rightarrow> pyval" where
  "iso_or_none w v =
     (case to_ist_datetime (wire_parse_datetime w) v of
        Some t \<Rightarrow> PStr (isoformat w t) | None \<Rightarrow> PNone)"

definition serialize_invoice_record ::
  "wire \<Rightarrow> (string \<rightharpoonup> pyval) \<Rightarrow> py_error + (string \<rightharpoonup> pyval)" where
  "serialize_invoice_record w invoice =
     (case convert_fields w numeric_fields invoice of
        Inl err \<Rightarrow> Inl err
      | Inr record \<Rightarrow>
          (let record = record(''generated_at'' \<mapsto> iso_or_none w (dict_get record ''generated_at''));
               record = record(''created_at'' \<mapsto> iso_or_none w (dict_get record ''created_at''));
               record = record(''updated_at'' \<mapsto> iso_or_none w (dict_get record ''updated_at''))
           in case absolute_invoice_url w (dict_get record ''pdf_url'') of
                Inl err \<Rightarrow> Inl err
              | Inr url \<Rightarrow> Inr (record(''pdf_url'' \<mapsto> url))))"

text \<open>
  For the examples: a request context at \<^verbatim>\<open>http://localhost:5000/\<close>, an ISO format
  with the offset of Asia/Kolkata, and a constructor that is never reached by the values
  of a database row.
\<close>

definition sample_isoformat :: "datetime \<Rightarrow> string" where
  "sample_isoformat t =
     strftime_Y t @ ''-'' @ strftime_m t @ ''-'' @ zfill 2 (str_nat (day t)) @ ''T''
     @ zfill 2 (str_nat (hour t)) @ '':'' @ zfill 2 (str_nat (minute t)) @ '':''
     @ zfill 2 (str_nat (second t)) @ ''+05:30''"

definition sample_wire :: wire where
  "sample_wire =
     \<lparr>decimal_str = (\<lambda>v. None),
      wire_parse_datetime = (\<lambda>v. None),
      isoformat = sample_isoformat,
      host_url = Some ''http://localhost:5000/''\<rparr>"

text \<open>
  A row as the database connector returns it: each monetary column that is present holds
  a Decimal or \<^verbatim>\<open>None\<close>, and \<^verbatim>\<open>pdf_url\<close> holds a string or \<^verbatim>\<open>None\<close>.
\<close>

definition db_row :: "(string \<rightharpoonup> pyval) \<Rightarrow> bool" where
  "db_row r =
     ((\<forall>f \<in> set numeric_fields.
         case r f of None \<Rightarrow> True | Some (PDecimal d) \<Rightarrow> True | Some PNone \<Rightarrow> True
         | Some _ \<Rightarrow> False)
      \<and> (case dict_get r ''pdf_url'' of PNone \<Rightarrow> True | PStr s \<Rightarrow> True | _ \<Rightarrow> False))"

text \<open>The value of a key in the record a call returned.\<close>

definition serialized_field :: "string \<Rightarrow> py_error + (string \<rightharpoonup> pyval) \<Rightarrow> pyval option" where
  "serialized_field k res = (case res of Inl err \<Rightarrow> None | Inr out \<Rightarrow> out k)"

section \<open>Properties of the decimal arithmetic\<close>


lemma aligned_val:
  assumes "e \<le> ea"
  shows "(of_int (c * 10 ^ nat (ea - e)) :: rat) * 10 powi e = of_int c * 10 powi ea"
proof -
  have "(10::rat) powi ea = 10 powi (ea - e) * 10 powi e"
    by (simp add: power_int_add [symmetric])
  also have "(10::rat) powi (ea - e) = 10 ^ nat (ea - e)"
    using assms by (simp add: power_int_def)
  finally show ?thesis by simp
qed

lemma dec_val_aligned_sum:
  "dec_val (Decimal (coeff a * 10 ^ nat (expo a - min (expo a) (expo b))
                     + coeff b * 10 ^ nat (expo b - min (expo a) (expo b))) (min (expo a) (expo b)))
     = dec_val a + dec_val b"
proof -
  let ?e = "min (expo a) (expo b)"
  have "dec_val (Decimal (coeff a * 10 ^ nat (expo a - ?e) + coeff b * 10 ^ nat (expo b - ?e)) ?e)
      = of_int (coeff a * 10 ^ nat (expo a - ?e)) * 10 powi ?e
        + of_int (coeff b * 10 ^ nat (expo b - ?e)) * 10 powi ?e"
    by (simp add: dec_val_def algebra_simps)
  also have "\<dots> = dec_val a + dec_val b"
    by (simp only: aligned_val [of ?e "expo a"] aligned_val [of ?e "expo b"] dec_val_def min.cobounded1 min.cobounded2)
  finally show ?thesis .
qed

lemma pow10_pos: "0 < (10::rat) powi e"
  by simp

lemma dec_val_sign: "0 \<le> dec_val d \<longleftrightarrow> 0 \<le> coeff d"
proof -
  have "\<not> (10::rat) powi expo d \<le> 0" by (simp add: not_le)
  then show ?thesis by (simp add: dec_val_def zero_le_mult_iff)
qed

lemma dec_fix_nonneg: "0 \<le> coeff d \<Longrightarrow> 0 \<le> coeff (dec_fix d)"
  by (simp add: dec_fix_def Let_def)

lemma dec_fix_expo: "expo d \<le> expo (dec_fix d)"
  by (simp add: dec_fix_def Let_def)

lemma dec_add_expo: "min (expo a) (expo b) \<le> expo (dec_add a b)"
  unfolding dec_add_def Let_def
  by (rule order_trans [OF _ dec_fix_expo]) simp

lemma dec_sub_expo: "min (expo a) (expo b) \<le> expo (dec_sub a b)"
  using dec_add_expo [of a "Decimal (- coeff b) (expo b)"] by (simp add: dec_sub_def)

lemma ndigits_le: "n < 10 ^ k \<Longrightarrow> 0 < k \<Longrightarrow> ndigits n \<le> k"
proof (induction k arbitrary: n)
  case 0
  then show ?case by simp
next
  case (Suc k)
  show ?case
  proof (cases "n < 10")
    case True
    then show ?thesis by (simp add: ndigits.simps)
  next
    case False
    then have "0 < k" using Suc.prems by (cases k) auto
    moreover have "n div 10 < 10 ^ k" using Suc.prems by (simp add: less_mult_imp_div_less)
    ultimately have "ndigits (n div 10) \<le> k" by (rule Suc.IH [rotated])
    with False show ?thesis by (simp add: ndigits.simps)
  qed
qed

lemma dec_fix_small: "\<bar>coeff d\<bar> < 10 ^ 28 \<Longrightarrow> dec_fix d = d"
proof -
  assume "\<bar>coeff d\<bar> < 10 ^ 28"
  then have "nat \<bar>coeff d\<bar> < 10 ^ 28" by (simp add: nat_less_iff)
  then have "ndigits (nat \<bar>coeff d\<bar>) \<le> 28" by (rule ndigits_le) simp
  then show ?thesis by (simp add: dec_fix_def prec_def Let_def)
qed


lemma dec_val_dec_add_exact:
  assumes "\<bar>dec_val a + dec_val b\<bar> < 10 ^ 28 * 10 powi min (expo a) (expo b)"
  shows "dec_val (dec_add a b) = dec_val a + dec_val b"
proof -
  let ?e = "min (expo a) (expo b)"
  let ?c = "coeff a * 10 ^ nat (expo a - ?e) + coeff b * 10 ^ nat (expo b - ?e)"
  have v: "dec_val (Decimal ?c ?e) = dec_val a + dec_val b"
    by (rule dec_val_aligned_sum)
  have "\<bar>of_int ?c * (10::rat) powi ?e\<bar> < 10 ^ 28 * 10 powi ?e"
    using assms v by (simp add: dec_val_def)
  then have "\<bar>of_int ?c :: rat\<bar> * 10 powi ?e < 10 ^ 28 * 10 powi ?e"
    by (simp add: abs_mult)
  then have "\<bar>of_int ?c :: rat\<bar> < 10 ^ 28"
    using pow10_pos [of ?e] by (simp only: mult_less_cancel_right_pos)
  then have "(of_int \<bar>?c\<bar> :: rat) < of_int (10 ^ 28)"
    by simp
  then have "\<bar>?c\<bar> < 10 ^ 28"
    by (simp only: of_int_less_iff)
  then have "dec_fix (Decimal ?c ?e) = Decimal ?c ?e"
    by (intro dec_fix_small) simp
  then show ?thesis
    using v by (simp add: dec_add_def Let_def)
qed

lemma dec_val_neg: "dec_val (Decimal (- coeff b) (expo b)) = - dec_val b"
  by (simp add: dec_val_def)

lemma dec_val_dec_sub_exact:
  assumes "\<bar>dec_val a - dec_val b\<bar> < 10 ^ 28 * 10 powi min (expo a) (expo b)"
  shows "dec_val (dec_sub a b) = dec_val a - dec_val b"
  using dec_val_dec_add_exact [of a "Decimal (- coeff b) (expo b)"] assms
  by (simp add: dec_sub_def dec_val_neg)

lemma dec_add_nonneg:
  assumes "0 \<le> dec_val a + dec_val b"
  shows "0 \<le> dec_val (dec_add a b)"
proof -
  let ?e = "min (expo a) (expo b)"
  let ?c = "coeff a * 10 ^ nat (expo a - ?e) + coeff b * 10 ^ nat (expo b - ?e)"
  have "0 \<le> dec_val (Decimal ?c ?e)"
    using assms by (simp only: dec_val_aligned_sum)
  then have "0 \<le> coeff (Decimal ?c ?e)"
    by (simp only: dec_val_sign)
  then have "0 \<le> coeff (dec_fix (Decimal ?c ?e))"
    by (rule dec_fix_nonneg)
  then show ?thesis
    by (simp add: dec_val_sign dec_add_def Let_def)
qed

lemma dec_sub_nonneg: "dec_val b \<le> dec_val a \<Longrightarrow> 0 \<le> dec_val (dec_sub a b)"
  using dec_add_nonneg [of a "Decimal (- coeff b) (expo b)"]
  by (simp add: dec_sub_def dec_val_neg)

lemma two_place_bound:
  assumes "- 2 \<le> e" and "\<bar>x\<bar> < 2 * 10 ^ 25"
  shows "\<bar>x :: rat\<bar> < 10 ^ 28 * 10 powi e"
proof -
  have "(10::rat) powi (- 2) \<le> 10 powi e"
    using assms(1) by (intro power_int_increasing) simp_all
  moreover have "(10::rat) powi (- 2) = 1 / 100"
    by (simp add: power_int_minus)
  ultimately have "(1::rat) / 100 \<le> 10 powi e"
    by simp
  then have "(10::rat) ^ 26 \<le> 10 ^ 28 * 10 powi e"
    by simp
  with assms(2) show ?thesis by simp
qed


lemma dec_val_zero: "dec_val (Decimal 0 e) = 0"
  by (simp add: dec_val_def)

lemma applied_discount_val:
  "dec_val (setup_fee_discount (create_invoice_amounts fee price d))
     = min (max (dec_val d) 0) (dec_val fee)"
  by (simp add: create_invoice_amounts_def Let_def dec_less_def dec_val_zero min_def max_def)

lemma applied_discount_le_fee:
  "dec_val (setup_fee_discount (create_invoice_amounts fee price d)) \<le> dec_val fee"
  by (simp add: applied_discount_val)

lemma applied_discount_cases:
  "setup_fee_discount (create_invoice_amounts fee price d) \<in> {d, Decimal 0 0, fee}"
  by (simp add: create_invoice_amounts_def Let_def)

lemma amounts_fields:
  "setup_fee_amount (create_invoice_amounts fee price d) = fee"
  "setup_fee_net (create_invoice_amounts fee price d)
     = dec_sub fee (setup_fee_discount (create_invoice_amounts fee price d))"
  "subtotal (create_invoice_amounts fee price d)
     = dec_add price (setup_fee_net (create_invoice_amounts fee price d))"
  "tax (create_invoice_amounts fee price d) = Decimal 0 0"
  "total (create_invoice_amounts fee price d) = subtotal (create_invoice_amounts fee price d)"
  by (simp_all add: create_invoice_amounts_def Let_def)

lemma setup_fee_net_nonneg:
  "0 \<le> dec_val (setup_fee_net (create_invoice_amounts fee price d))"
  unfolding amounts_fields(2) by (rule dec_sub_nonneg) (rule applied_discount_le_fee)

lemma two_place_zero: "two_place (Decimal 0 0)"
  by (simp add: two_place_def dec_val_zero)

lemma amounts_exact:
  assumes fee: "two_place fee" and price: "two_place price" and d: "two_place d"
  shows "dec_val (setup_fee_net (create_invoice_amounts fee price d))
           = dec_val fee - dec_val (setup_fee_discount (create_invoice_amounts fee price d))"
    and "dec_val (subtotal (create_invoice_amounts fee price d))
           = dec_val price + dec_val (setup_fee_net (create_invoice_amounts fee price d))"
proof -
  let ?r = "create_invoice_amounts fee price d"
  let ?a = "setup_fee_discount ?r"
  have a2: "two_place ?a"
    using applied_discount_cases [of fee price d] fee d two_place_zero by auto
  have range: "0 \<le> dec_val ?a \<or> dec_val ?a = dec_val fee"
    by (simp add: applied_discount_val min_def max_def)
  have le: "dec_val ?a \<le> dec_val fee"
    by (rule applied_discount_le_fee)
  have "\<bar>dec_val fee - dec_val ?a\<bar> \<le> \<bar>dec_val fee\<bar>"
    using range le by auto
  then have diff: "\<bar>dec_val fee - dec_val ?a\<bar> < 10 ^ 25"
    using fee by (simp add: two_place_def)
  have "- 2 \<le> min (expo fee) (expo ?a)"
    using fee a2 by (simp add: two_place_def)
  then have "\<bar>dec_val fee - dec_val ?a\<bar> < 10 ^ 28 * 10 powi min (expo fee) (expo ?a)"
    using diff by (intro two_place_bound) simp_all
  then have net: "dec_val (dec_sub fee ?a) = dec_val fee - dec_val ?a"
    by (rule dec_val_dec_sub_exact)
  then show n: "dec_val (setup_fee_net ?r) = dec_val fee - dec_val ?a"
    by (simp only: amounts_fields)
  let ?n = "setup_fee_net ?r"
  have "- 2 \<le> min (expo fee) (expo ?a)"
    using fee a2 by (simp add: two_place_def)
  also have "\<dots> \<le> expo ?n"
    unfolding amounts_fields(2) by (rule dec_sub_expo)
  finally have "- 2 \<le> min (expo price) (expo ?n)"
    using price by (simp add: two_place_def)
  moreover have "\<bar>dec_val price + dec_val ?n\<bar> < 2 * 10 ^ 25"
  proof -
    have "\<bar>dec_val price\<bar> < 10 ^ 25"
      using price by (simp add: two_place_def)
    moreover have "\<bar>dec_val ?n\<bar> < 10 ^ 25"
      using diff n by simp
    moreover have "\<bar>dec_val price + dec_val ?n\<bar> \<le> \<bar>dec_val price\<bar> + \<bar>dec_val ?n\<bar>"
      by (rule abs_triangle_ineq)
    ultimately show ?thesis by linarith
  qed
  ultimately have "\<bar>dec_val price + dec_val ?n\<bar> < 10 ^ 28 * 10 powi min (expo price) (expo ?n)"
    by (rule two_place_bound)
  then have "dec_val (dec_add price ?n) = dec_val price + dec_val ?n"
    by (rule dec_val_dec_add_exact)
  then show "dec_val (subtotal ?r) = dec_val price + dec_val ?n"
    by (simp only: amounts_fields)
qed

section \<open>Properties of invoice pricing\<close>

text \<open>
  C1. For every plan price, setup fee and requested discount, the applied discount is the
  requested one clamped to be non-negative and then to at most the setup fee; the net
  setup fee is the fee minus the applied discount (in the program's Decimal arithmetic)
  and is never negative; the subtotal is the plan price plus the net fee, the tax is zero
  and the total is the subtotal. For amounts with at most two fractional digits the
  Decimal difference and sum are the exact ones.
\<close>

theorem create_invoice_amounts_correct:
  "let r = create_invoice_amounts fee price d; applied = setup_fee_discount r
   in dec_val applied = min (max (dec_val d) 0) (dec_val fee)
      \<and> setup_fee_amount r = fee
      \<and> setup_fee_net r = dec_sub fee applied
      \<and> 0 \<le> dec_val (setup_fee_net r)
      \<and> subtotal r = dec_add price (setup_fee_net r)
      \<and> tax r = Decimal 0 0
      \<and> total r = subtotal r
      \<and> (two_place fee \<and> two_place price \<and> two_place d \<longrightarrow>
           dec_val (setup_fee_net r) = dec_val fee - dec_val applied
           \<and> dec_val (subtotal r) = dec_val price + dec_val (setup_fee_net r))"
  unfolding Let_def
  using applied_discount_val [of fee price d] amounts_fields [of fee price d]
    setup_fee_net_nonneg [of fee price d] amounts_exact [of fee price d]
  by blast

theorem create_invoice_amounts_witness:
  "two_place (Decimal 3000 0) \<and> two_place (Decimal 49900 (- 2)) \<and> two_place (Decimal 50000 (- 2))
   \<and> dec_val (setup_fee_discount
        (create_invoice_amounts (Decimal 3000 0) (Decimal 49900 (- 2)) (Decimal 50000 (- 2)))) = 500
   \<and> dec_val (setup_fee_net
        (create_invoice_amounts (Decimal 3000 0) (Decimal 49900 (- 2)) (Decimal 50000 (- 2)))) = 2500
   \<and> dec_val (subtotal
        (create_invoice_amounts (Decimal 3000 0) (Decimal 49900 (- 2)) (Decimal 50000 (- 2)))) = 2999"
proof -
  let ?r = "create_invoice_amounts (Decimal 3000 0) (Decimal 49900 (- 2)) (Decimal 50000 (- 2))"
  have tp: "two_place (Decimal 3000 0) \<and> two_place (Decimal 49900 (- 2)) \<and> two_place (Decimal 50000 (- 2))"
    by (simp add: two_place_def dec_val_def power_int_minus)
  have v: "dec_val (Decimal 3000 0) = 3000" "dec_val (Decimal 50000 (- 2)) = 500"
    "dec_val (Decimal 49900 (- 2)) = 499"
    by (simp_all add: dec_val_def power_int_minus)
  note t = create_invoice_amounts_correct
    [of "Decimal 3000 0" "Decimal 49900 (- 2)" "Decimal 50000 (- 2)", unfolded Let_def]
  from t have a: "dec_val (setup_fee_discount ?r) = 500"
    by (simp add: v)
  from t tp have "dec_val (setup_fee_net ?r) = dec_val (Decimal 3000 0) - dec_val (setup_fee_discount ?r)"
    and s: "dec_val (subtotal ?r) = dec_val (Decimal 49900 (- 2)) + dec_val (setup_fee_net ?r)"
    by blast+
  then have n: "dec_val (setup_fee_net ?r) = 2500"
    by (simp add: a v)
  from s have "dec_val (subtotal ?r) = 2999"
    by (simp add: n v)
  with tp a n show ?thesis by blast
qed

section \<open>Properties of the payment ledger\<close>


lemma record_payment_rejects:
  assumes "\<not> truthy (dict_get payload ''billing_month'') \<or> \<not> truthy (dict_get payload ''amount'')"
  shows "record_payment sql lead_id payload st = (BadRequest ''Billing month and amount required'', st)"
  using assms by (auto simp: record_payment_def Let_def)


lemma payment_key_on_duplicate: "payment_key (on_duplicate_key_update a po pm n r) = payment_key r"
  by (simp add: payment_key_def on_duplicate_key_update_def)

lemma map_key_overwrite:
  "map payment_key (map (\<lambda>r. if payment_key r = k then on_duplicate_key_update a po pm n r else r) rs)
     = map payment_key rs"
  by (induction rs) (simp_all add: payment_key_on_duplicate)

lemma upsert_payment_SomeD:
  assumes "upsert_payment sql lead_id bm amt po pm nt st = Some st'"
  shows "\<exists>m a po' pm' n'.
    sql_date sql bm = Some m \<and> sql_decimal sql amt = Some a
    \<and> nullable (sql_date sql) po = Some po' \<and> nullable (sql_text sql) pm = Some pm'
    \<and> nullable (sql_text sql) nt = Some n' \<and> lead_id \<in> set (leads st)
    \<and> st' = (if (lead_id, m) \<in> payment_key ` set (lead_payments st)
             then st\<lparr>lead_payments :=
                    map (\<lambda>r. if payment_key r = (lead_id, m) then on_duplicate_key_update a po' pm' n' r else r)
                      (lead_payments st)\<rparr>
             else st\<lparr>lead_payments := lead_payments st @
                       [\<lparr>p_id = next_payment_id st, p_lead_id = lead_id, p_invoice_id = None,
                         p_billing_month = m, p_amount = a, p_paid_on = po',
                         p_payment_method = pm', p_note = n'\<rparr>],
                     next_payment_id := Suc (next_payment_id st)\<rparr>)"
  using assms unfolding upsert_payment_def on_duplicate_key_update_def
  by (simp split: option.splits if_splits)

lemma upsert_payment_distinct:
  assumes "upsert_payment sql lead_id bm amt po pm nt st = Some st'"
    and "distinct (map payment_key (lead_payments st))"
  shows "distinct (map payment_key (lead_payments st'))"
proof -
  from upsert_payment_SomeD [OF assms(1)] obtain m a po' pm' n' where
    st': "st' = (if (lead_id, m) \<in> payment_key ` set (lead_payments st)
             then st\<lparr>lead_payments :=
                    map (\<lambda>r. if payment_key r = (lead_id, m) then on_duplicate_key_update a po' pm' n' r else r)
                      (lead_payments st)\<rparr>
             else st\<lparr>lead_payments := lead_payments st @
                       [\<lparr>p_id = next_payment_id st, p_lead_id = lead_id, p_invoice_id = None,
                         p_billing_month = m, p_amount = a, p_paid_on = po',
                         p_payment_method = pm', p_note = n'\<rparr>],
                     next_payment_id := Suc (next_payment_id st)\<rparr>)"
    by blast
  show ?thesis
  proof (cases "(lead_id, m) \<in> payment_key ` set (lead_payments st)")
    case True
    with st' have "lead_payments st'
        = map (\<lambda>r. if payment_key r = (lead_id, m) then on_duplicate_key_update a po' pm' n' r else r) (lead_payments st)"
      by simp
    then show ?thesis using assms(2) by (simp only: map_key_overwrite)
  next
    case False
    with st' have "map payment_key (lead_payments st')
        = map payment_key (lead_payments st) @ [(lead_id, m)]"
      by (simp add: payment_key_def)
    then show ?thesis using assms(2) False by simp
  qed
qed

lemma record_payment_distinct:
  assumes "distinct (map payment_key (lead_payments st))"
  shows "distinct (map payment_key (lead_payments (snd (record_payment sql lead_id payload st))))"
  using assms
  by (auto simp: record_payment_def Let_def split: option.splits dest: upsert_payment_distinct)

lemma record_payments_distinct:
  assumes "distinct (map payment_key (lead_payments st))"
  shows "distinct (map payment_key (lead_payments (record_payments sql reqs st)))"
  using assms
proof (induction reqs arbitrary: st)
  case Nil
  then show ?case by simp
next
  case (Cons q reqs)
  obtain lead_id payload where q: "q = (lead_id, payload)" by (cases q)
  show ?case
    unfolding q record_payments.simps
    by (rule Cons.IH) (rule record_payment_distinct [OF Cons.prems])
qed

lemma find_overwritten:
  assumes that: "\<And>x. payment_key (f x) = payment_key x"
    and "distinct (map payment_key rs)" and "r \<in> set rs" and "payment_key r = k"
  shows "find (\<lambda>x. payment_key x = k) (map (\<lambda>x. if payment_key x = k then f x else x) rs) = Some (f r)"
  using assms(2-)
proof (induction rs)
  case Nil
  then show ?case by simp
next
  case (Cons x rs)
  show ?case
  proof (cases "payment_key x = k")
    case True
    with Cons.prems have "x = r" by (auto simp: image_iff)
    with True show ?thesis by (simp add: that)
  next
    case False
    with Cons show ?thesis by auto
  qed
qed

lemma map_overwrite_single:
  assumes "distinct (map payment_key rs)" and "r \<in> set rs" and "payment_key r = k"
  shows "map (\<lambda>x. if payment_key x = k then f x else x) rs = map (\<lambda>x. if x = r then f x else x) rs"
proof (rule map_cong [OF refl])
  fix x assume "x \<in> set rs"
  with assms have "payment_key x = k \<longleftrightarrow> x = r"
    by (auto simp: distinct_map dest: inj_onD)
  then show "(if payment_key x = k then f x else x) = (if x = r then f x else x)" by simp
qed


lemma record_payment_OkD:
  assumes "record_payment sql lead_id payload st = (Ok res, st')"
  shows "upsert_payment sql lead_id (dict_get payload ''billing_month'') (dict_get payload ''amount'')
           (dict_get payload ''paid_on'') (dict_get payload ''payment_method'')
           (dict_get payload ''note'') st = Some st'"
    and "res = select_payment sql lead_id (dict_get payload ''billing_month'') st'"
  using assms by (auto simp: record_payment_def Let_def split: if_splits option.splits)

lemma record_payment_overwrites:
  assumes inv: "distinct (map payment_key (lead_payments st))"
    and r: "r \<in> set (lead_payments st)" "payment_key r = (lead_id, m)"
    and m: "sql_date sql (dict_get payload ''billing_month'') = Some m"
    and ok: "record_payment sql lead_id payload st = (Ok res, st')"
  shows "\<exists>a po pm n.
           sql_decimal sql (dict_get payload ''amount'') = Some a
         \<and> nullable (sql_date sql) (dict_get payload ''paid_on'') = Some po
         \<and> nullable (sql_text sql) (dict_get payload ''payment_method'') = Some pm
         \<and> nullable (sql_text sql) (dict_get payload ''note'') = Some n
         \<and> lead_payments st'
             = map (\<lambda>x. if x = r then on_duplicate_key_update a po pm n r else x) (lead_payments st)
         \<and> res = Some (on_duplicate_key_update a po pm n r)"
proof -
  let ?k = "(lead_id, m)"
  from upsert_payment_SomeD [OF record_payment_OkD(1) [OF ok]] m obtain a po pm n where
    conv: "sql_decimal sql (dict_get payload ''amount'') = Some a"
      "nullable (sql_date sql) (dict_get payload ''paid_on'') = Some po"
      "nullable (sql_text sql) (dict_get payload ''payment_method'') = Some pm"
      "nullable (sql_text sql) (dict_get payload ''note'') = Some n"
    and st': "st' = (if ?k \<in> payment_key ` set (lead_payments st)
             then st\<lparr>lead_payments :=
                    map (\<lambda>r. if payment_key r = ?k then on_duplicate_key_update a po pm n r else r)
                      (lead_payments st)\<rparr>
             else st\<lparr>lead_payments := lead_payments st @
                       [\<lparr>p_id = next_payment_id st, p_lead_id = lead_id, p_invoice_id = None,
                         p_billing_month = m, p_amount = a, p_paid_on = po,
                         p_payment_method = pm, p_note = n\<rparr>],
                     next_payment_id := Suc (next_payment_id st)\<rparr>)"
    by auto
  have "?k \<in> payment_key ` set (lead_payments st)"
    using r by (metis imageI)
  with st' have rows: "lead_payments st'
      = map (\<lambda>x. if payment_key x = ?k then on_duplicate_key_update a po pm n x else x) (lead_payments st)"
    by simp
  also have "\<dots> = map (\<lambda>x. if x = r then on_duplicate_key_update a po pm n x else x) (lead_payments st)"
    by (rule map_overwrite_single [OF inv r])
  also have "\<dots> = map (\<lambda>x. if x = r then on_duplicate_key_update a po pm n r else x) (lead_payments st)"
    by (rule map_cong) simp_all
  finally have 1: "lead_payments st'
      = map (\<lambda>x. if x = r then on_duplicate_key_update a po pm n r else x) (lead_payments st)" .
  have "res = find (\<lambda>x. payment_key x = ?k) (lead_payments st')"
    using record_payment_OkD(2) [OF ok] m by (simp add: select_payment_def)
  also have "\<dots> = Some (on_duplicate_key_update a po pm n r)"
    unfolding rows by (rule find_overwritten [OF payment_key_on_duplicate inv r])
  finally show ?thesis using conv 1 by blast
qed

lemmas sample_eval = record_payment_def dict_get_def upsert_payment_def sample_sql_def
    sample_date_def sample_decimal_def sample_text_def parse_nat_def digit_val_def nullable_def
    select_payment_def payment_key_def on_duplicate_key_update_def Let_def

text \<open>
  C2. Recording a payment for a (client, billing month) pair that already has a row
  overwrites that row's amount, paid-on date, method and note in place: the table keeps
  its rows in place, the row of the pair carries the new values (none derived from the old
  amount), and the handler returns it. Whatever sequence of recordings runs, the table
  never holds two rows for one pair. The witness records 500 and then 750 for client 7
  and month 2025-11: one row, amount 750.
\<close>

theorem record_payment_upsert:
  assumes "distinct (map payment_key (lead_payments st))"
  shows "distinct (map payment_key (lead_payments (record_payments sql reqs st)))
       \<and> (\<forall>r m res st'.
            r \<in> set (lead_payments st) \<and> payment_key r = (lead_id, m)
            \<and> sql_date sql (dict_get payload ''billing_month'') = Some m
            \<and> record_payment sql lead_id payload st = (Ok res, st')
            \<longrightarrow> (\<exists>a po pm n.
                   sql_decimal sql (dict_get payload ''amount'') = Some a
                 \<and> nullable (sql_date sql) (dict_get payload ''paid_on'') = Some po
                 \<and> nullable (sql_text sql) (dict_get payload ''payment_method'') = Some pm
                 \<and> nullable (sql_text sql) (dict_get payload ''note'') = Some n
                 \<and> lead_payments st'
                     = map (\<lambda>x. if x = r then on_duplicate_key_update a po pm n r else x)
                         (lead_payments st)
                 \<and> res = Some (on_duplicate_key_update a po pm n r)))"
proof (intro conjI allI impI)
  show "distinct (map payment_key (lead_payments (record_payments sql reqs st)))"
    using assms by (rule record_payments_distinct)
next
  fix r m res st'
  assume "r \<in> set (lead_payments st) \<and> payment_key r = (lead_id, m)
            \<and> sql_date sql (dict_get payload ''billing_month'') = Some m
            \<and> record_payment sql lead_id payload st = (Ok res, st')"
  then show "\<exists>a po pm n.
                   sql_decimal sql (dict_get payload ''amount'') = Some a
                 \<and> nullable (sql_date sql) (dict_get payload ''paid_on'') = Some po
                 \<and> nullable (sql_text sql) (dict_get payload ''payment_method'') = Some pm
                 \<and> nullable (sql_text sql) (dict_get payload ''note'') = Some n
                 \<and> lead_payments st'
                     = map (\<lambda>x. if x = r then on_duplicate_key_update a po pm n r else x)
                         (lead_payments st)
                 \<and> res = Some (on_duplicate_key_update a po pm n r)"
    using record_payment_overwrites [OF assms] by blast
qed

theorem record_payment_upsert_witness:
  "distinct (map payment_key
     [\<lparr>p_id = 1, p_lead_id = 7, p_invoice_id = None, p_billing_month = Date 2025 11 1,
       p_amount = Decimal 50000 (- 2), p_paid_on = None, p_payment_method = None, p_note = None\<rparr>])
   \<and> record_payment sample_sql 7
         [''billing_month'' \<mapsto> PStr ''2025-11-01'', ''amount'' \<mapsto> PInt 500]
         \<lparr>leads = [7], lead_payments = [], next_payment_id = 1\<rparr>
       = (Ok (Some \<lparr>p_id = 1, p_lead_id = 7, p_invoice_id = None, p_billing_month = Date 2025 11 1,
                    p_amount = Decimal 50000 (- 2), p_paid_on = None, p_payment_method = None,
                    p_note = None\<rparr>),
          \<lparr>leads = [7],
           lead_payments =
             [\<lparr>p_id = 1, p_lead_id = 7, p_invoice_id = None, p_billing_month = Date 2025 11 1,
               p_amount = Decimal 50000 (- 2), p_paid_on = None, p_payment_method = None,
               p_note = None\<rparr>],
           next_payment_id = 2\<rparr>)
   \<and> record_payment sample_sql 7
         [''billing_month'' \<mapsto> PStr ''2025-11-01'', ''amount'' \<mapsto> PInt 750,
          ''paid_on'' \<mapsto> PStr ''2025-11-05'', ''payment_method'' \<mapsto> PStr ''UPI'']
         \<lparr>leads = [7],
          lead_payments =
            [\<lparr>p_id = 1, p_lead_id = 7, p_invoice_id = None, p_billing_month = Date 2025 11 1,
              p_amount = Decimal 50000 (- 2), p_paid_on = None, p_payment_method = None,
              p_note = None\<rparr>],
          next_payment_id = 2\<rparr>
       = (Ok (Some \<lparr>p_id = 1, p_lead_id = 7, p_invoice_id = None, p_billing_month = Date 2025 11 1,
                    p_amount = Decimal 75000 (- 2), p_paid_on = Some (Date 2025 11 5),
                    p_payment_method = Some ''UPI'', p_note = None\<rparr>),
          \<lparr>leads = [7],
           lead_payments =
             [\<lparr>p_id = 1, p_lead_id = 7, p_invoice_id = None, p_billing_month = Date 2025 11 1,
               p_amount = Decimal 75000 (- 2), p_paid_on = Some (Date 2025 11 5),
               p_payment_method = Some ''UPI'', p_note = None\<rparr>],
           next_payment_id = 2\<rparr>)
   \<and> lead_payments (record_payments sample_sql
         [(7, [''billing_month'' \<mapsto> PStr ''2025-11-01'', ''amount'' \<mapsto> PInt 500]),
          (7, [''billing_month'' \<mapsto> PStr ''2025-11-01'', ''amount'' \<mapsto> PInt 750,
               ''paid_on'' \<mapsto> PStr ''2025-11-05'', ''payment_method'' \<mapsto> PStr ''UPI''])]
         \<lparr>leads = [7], lead_payments = [], next_payment_id = 1\<rparr>)
       = [\<lparr>p_id = 1, p_lead_id = 7, p_invoice_id = None, p_billing_month = Date 2025 11 1,
           p_amount = Decimal 75000 (- 2), p_paid_on = Some (Date 2025 11 5),
           p_payment_method = Some ''UPI'', p_note = None\<rparr>]"
  using record_payment_upsert
    [of "\<lparr>leads = [7],
          lead_payments =
            [\<lparr>p_id = 1, p_lead_id = 7, p_invoice_id = None, p_billing_month = Date 2025 11 1,
              p_amount = Decimal 50000 (- 2), p_paid_on = None, p_payment_method = None,
              p_note = None\<rparr>],
          next_payment_id = 2\<rparr>"
        sample_sql "[]" 7
        "[''billing_month'' \<mapsto> PStr ''2025-11-01'', ''amount'' \<mapsto> PInt 750,
          ''paid_on'' \<mapsto> PStr ''2025-11-05'', ''payment_method'' \<mapsto> PStr ''UPI'']"]
  by (simp add: sample_eval)

text \<open>
  C7. A request whose billing month or amount is missing (the key is absent or its value
  is null) is answered with the validation error, and the stored state is the one before
  the request: nothing is written and no default takes the place of the missing field.
\<close>

theorem record_payment_requires_fields:
  assumes "dict_get payload ''billing_month'' = PNone \<or> dict_get payload ''amount'' = PNone"
  shows "record_payment sql lead_id payload st
           = (BadRequest ''Billing month and amount required'', st)"
  using assms by (intro record_payment_rejects) auto

theorem record_payment_requires_fields_witness:
  "dict_get [''amount'' \<mapsto> PInt 500] ''billing_month'' = PNone
   \<and> record_payment sample_sql 7 [''amount'' \<mapsto> PInt 500]
         \<lparr>leads = [7], lead_payments = [], next_payment_id = 1\<rparr>
       = (BadRequest ''Billing month and amount required'',
          \<lparr>leads = [7], lead_payments = [], next_payment_id = 1\<rparr>)
   \<and> dict_get [''billing_month'' \<mapsto> PStr ''2025-11-01'', ''amount'' \<mapsto> PNone] ''amount'' = PNone
   \<and> record_payment sample_sql 7 [''billing_month'' \<mapsto> PStr ''2025-11-01'', ''amount'' \<mapsto> PNone]
         \<lparr>leads = [7], lead_payments = [], next_payment_id = 1\<rparr>
       = (BadRequest ''Billing month and amount required'',
          \<lparr>leads = [7], lead_payments = [], next_payment_id = 1\<rparr>)"
  using record_payment_requires_fields
      [of "[''amount'' \<mapsto> PInt 500]" sample_sql 7
          "\<lparr>leads = [7], lead_payments = [], next_payment_id = 1\<rparr>"]
    record_payment_requires_fields
      [of "[''billing_month'' \<mapsto> PStr ''2025-11-01'', ''amount'' \<mapsto> PNone]" sample_sql 7
          "\<lparr>leads = [7], lead_payments = [], next_payment_id = 1\<rparr>"]
  by (simp add: dict_get_def)

text \<open>
  C10, as the code has it. An amount that is the number zero (the integer \<open>0\<close> or the
  float \<open>0.0\<close>) fails the test \<^verbatim>\<open>not amount\<close>: the request gets the validation error of
  a missing field and nothing is written. The test is one of truth value, not of
  magnitude: the non-empty string \<^verbatim>\<open>"0"\<close> passes it, and the counterexample shows the
  row with amount zero that this request stores.
\<close>

theorem record_payment_rejects_numeric_zero:
  assumes "dict_get payload ''amount'' = PInt 0 \<or> dict_get payload ''amount'' = PFloat (Float 0)"
  shows "record_payment sql lead_id payload st
           = (BadRequest ''Billing month and amount required'', st)"
  using assms by (intro record_payment_rejects) auto

theorem record_payment_rejects_numeric_zero_witness:
  "dict_get [''billing_month'' \<mapsto> PStr ''2025-11-01'', ''amount'' \<mapsto> PInt 0] ''amount'' = PInt 0
   \<and> record_payment sample_sql 7 [''billing_month'' \<mapsto> PStr ''2025-11-01'', ''amount'' \<mapsto> PInt 0]
         \<lparr>leads = [7], lead_payments = [], next_payment_id = 1\<rparr>
       = (BadRequest ''Billing month and amount required'',
          \<lparr>leads = [7], lead_payments = [], next_payment_id = 1\<rparr>)"
  using record_payment_rejects_numeric_zero
      [of "[''billing_month'' \<mapsto> PStr ''2025-11-01'', ''amount'' \<mapsto> PInt 0]" sample_sql 7
          "\<lparr>leads = [7], lead_payments = [], next_payment_id = 1\<rparr>"]
  by (simp add: dict_get_def)

theorem record_payment_zero_amount_counterexample:
  "truthy (PStr ''0'')
   \<and> record_payment sample_sql 7 [''billing_month'' \<mapsto> PStr ''2025-11-01'', ''amount'' \<mapsto> PStr ''0'']
         \<lparr>leads = [7], lead_payments = [], next_payment_id = 1\<rparr>
       = (Ok (Some \<lparr>p_id = 1, p_lead_id = 7, p_invoice_id = None, p_billing_month = Date 2025 11 1,
                    p_amount = Decimal 0 (- 2), p_paid_on = None, p_payment_method = None,
                    p_note = None\<rparr>),
          \<lparr>leads = [7],
           lead_payments =
             [\<lparr>p_id = 1, p_lead_id = 7, p_invoice_id = None, p_billing_month = Date 2025 11 1,
               p_amount = Decimal 0 (- 2), p_paid_on = None, p_payment_method = None,
               p_note = None\<rparr>],
           next_payment_id = 2\<rparr>)
   \<and> dec_val (Decimal 0 (- 2)) = 0"
  by (simp add: sample_eval dec_val_def)

section \<open>Properties of invoice numbering\<close>






lemma digit_val_digit_char: "d < 10 \<Longrightarrow> digit_val (digit_char d) = Some d"
proof -
  assume "d < 10"
  then have "d \<in> {0, 1, 2, 3, 4, 5, 6, 7, 8, 9}" by auto
  then show ?thesis
    by (auto simp: digit_val_def digit_char_def)
qed

lemma nat_of_digits_append:
  "nat_of_digits acc (xs @ ys)
     = (case nat_of_digits acc xs of None \<Rightarrow> None | Some a \<Rightarrow> nat_of_digits a ys)"
  by (induction xs arbitrary: acc) (simp_all split: option.splits)

lemma length_str_nat: "length (str_nat n) = ndigits n"
  by (induction n rule: str_nat.induct) (simp add: str_nat.simps ndigits.simps)

lemma nat_of_digits_str_nat: "nat_of_digits acc (str_nat n) = Some (acc * 10 ^ ndigits n + n)"
proof (induction n arbitrary: acc rule: str_nat.induct)
  case (1 n)
  show ?case
  proof (cases "n < 10")
    case True
    then show ?thesis
      by (simp add: str_nat.simps [of n] ndigits.simps [of n] digit_val_digit_char)
  next
    case False
    have "nat_of_digits acc (str_nat n)
        = nat_of_digits (acc * 10 ^ ndigits (n div 10) + n div 10) [digit_char (n mod 10)]"
      using False by (simp add: str_nat.simps [of n] nat_of_digits_append 1)
    also have "\<dots> = Some (10 * (acc * 10 ^ ndigits (n div 10) + n div 10) + n mod 10)"
      by (simp add: digit_val_digit_char)
    also have "10 * (acc * 10 ^ ndigits (n div 10) + n div 10) + n mod 10
        = acc * 10 ^ ndigits n + n"
      using False by (simp add: ndigits.simps [of n] algebra_simps)
    finally show ?thesis .
  qed
qed

lemma nat_of_digits_zeros: "nat_of_digits 0 (replicate k (CHR ''0'') @ s) = nat_of_digits 0 s"
  by (induction k) (simp_all add: digit_val_def)

lemma str_nat_nonempty: "str_nat n \<noteq> []"
  by (simp add: str_nat.simps [of n])

lemma parse_nat_zfill: "parse_nat (zfill w (str_nat n)) = Some n"
  by (simp add: parse_nat_def zfill_def nat_of_digits_zeros nat_of_digits_str_nat str_nat_nonempty)

lemma length_zfill: "length (zfill w s) = max w (length s)"
  by (simp add: zfill_def)

lemma ndigits_ge: "10 ^ k \<le> n \<Longrightarrow> k < ndigits n"
proof (induction k arbitrary: n)
  case 0
  then show ?case by (simp add: ndigits.simps [of n])
next
  case (Suc k)
  then have "10 ^ k \<le> n div 10" by simp
  then have "k < ndigits (n div 10)" by (rule Suc.IH)
  moreover have "(10::nat) \<le> 10 ^ Suc k" by simp
  with Suc.prems have "\<not> n < 10" by linarith
  ultimately show ?case by (simp add: ndigits.simps [of n])
qed


lemma ndigits_le_iff: "0 < k \<Longrightarrow> ndigits n \<le> k \<longleftrightarrow> n < 10 ^ k"
  using ndigits_le [of n k] ndigits_ge [of k n] by (auto simp: not_less [symmetric])

lemma length_strftime_Y:
  assumes "year t \<le> 9999"
  shows "length (strftime_Y t) = 4"
proof -
  have "year t < 10 ^ 4" using assms by simp
  then have "ndigits (year t) \<le> 4" by (rule ndigits_le) simp
  then show ?thesis by (simp add: strftime_Y_def length_zfill length_str_nat)
qed

lemma length_strftime_m:
  assumes "month t \<le> 12"
  shows "length (strftime_m t) = 2"
proof -
  have "month t < 10 ^ 2" using assms by simp
  then have "ndigits (month t) \<le> 2" by (rule ndigits_le) simp
  then show ?thesis by (simp add: strftime_m_def length_zfill length_str_nat)
qed

lemma length_seq: "length (zfill 4 (str_nat n)) = 4 \<longleftrightarrow> n < 10000"
  using ndigits_le_iff [of 4 n] by (auto simp: length_zfill length_str_nat)

lemma replicate_num: "replicate (numeral k) x = x # replicate (pred_numeral k) x"
  by (simp add: numeral_eq_Suc)

lemmas fmt_eval = str_nat.simps digit_char_def zfill_def replicate_num strftime_Y_def
  strftime_m_def invoice_prefix_def

lemma sample_like_prefix: "sample_like (p @ ''%'') s \<longleftrightarrow> take (length p) s = p"
  by (simp add: sample_like_def)

lemma filter_all: "\<forall>x \<in> set xs. P x \<Longrightarrow> filter P xs = xs"
  by (induction xs) simp_all

lemma next_invoice_number_prefix:
  "next_invoice_number like t nums
     = invoice_prefix t @ zfill 4 (str_nat (length (filter (like (invoice_prefix t @ ''%'')) nums) + 1))"
  by (simp add: next_invoice_number_def Let_def)

lemma next_invoice_number_all_match:
  assumes "\<forall>x \<in> set nums. take (length (invoice_prefix t)) x = invoice_prefix t"
  shows "next_invoice_number sample_like t nums
           = invoice_prefix t @ zfill 4 (str_nat (length nums + 1))"
proof -
  have "filter (sample_like (invoice_prefix t @ ''%'')) nums = nums"
    using assms by (intro filter_all) (simp add: sample_like_prefix)
  then show ?thesis
    by (simp add: next_invoice_number_prefix)
qed

lemma allocate_all_match:
  assumes "\<forall>x \<in> set nums. take (length (invoice_prefix t)) x = invoice_prefix t"
  shows "length (allocate sample_like t n nums) = length nums + n
       \<and> (\<forall>x \<in> set (allocate sample_like t n nums). take (length (invoice_prefix t)) x = invoice_prefix t)"
  using assms
proof (induction n arbitrary: nums)
  case 0
  then show ?case by simp
next
  case (Suc n)
  let ?nums = "nums @ [next_invoice_number sample_like t nums]"
  have "\<forall>x \<in> set ?nums. take (length (invoice_prefix t)) x = invoice_prefix t"
    using Suc.prems by (simp add: next_invoice_number_all_match [OF Suc.prems])
  from Suc.IH [OF this] show ?case by simp
qed

lemma allocate_then_next:
  "length (allocate sample_like t n []) = n
   \<and> next_invoice_number sample_like t (allocate sample_like t n [])
       = invoice_prefix t @ zfill 4 (str_nat (n + 1))"
proof -
  have a: "length (allocate sample_like t n []) = length ([] :: string list) + n
       \<and> (\<forall>x \<in> set (allocate sample_like t n []).
             take (length (invoice_prefix t)) x = invoice_prefix t)"
    by (rule allocate_all_match) simp
  then have len: "length (allocate sample_like t n []) = n" by simp
  have "next_invoice_number sample_like t (allocate sample_like t n [])
      = invoice_prefix t @ zfill 4 (str_nat (length (allocate sample_like t n []) + 1))"
    using a by (intro next_invoice_number_all_match) blast
  with len show ?thesis by simp
qed



lemma five_digits:
  "invoice_prefix \<lparr>year = 2025, month = 11, day = 3, hour = 9, minute = 30, second = 0\<rparr>
     @ zfill 4 (str_nat (9999 + 1)) = ''INV202511'' @ ''10000''"
  by (simp add: fmt_eval)

text \<open>
  C3, as the code has it. At a clock reading with a four-digit year, the allocated number
  is \<^verbatim>\<open>INV\<close>, the four digits of the year, the two digits of the month, and then
  \<open>N + 1\<close> in decimal, where \<open>N\<close> counts the stored numbers that match the prefix; the
  sequence is padded with zeros to at least four digits, and it has exactly four digits
  if and only if \<open>N + 1 < 10000\<close>. The counterexample is the store that 9999 allocations
  of one month leave: the next number carries the five digits \<^verbatim>\<open>10000\<close>.
\<close>

theorem next_invoice_number_format:
  assumes "1000 \<le> year today" and "year today \<le> 9999"
    and "1 \<le> month today" and "month today \<le> 12"
  shows "let y = strftime_Y today; m = strftime_m today;
             N = length (filter (like (''INV'' @ y @ m @ ''%'')) invoice_numbers);
             q = zfill 4 (str_nat (N + 1))
         in next_invoice_number like today invoice_numbers = ''INV'' @ y @ m @ q
            \<and> length y = 4 \<and> parse_nat y = Some (year today)
            \<and> length m = 2 \<and> parse_nat m = Some (month today)
            \<and> parse_nat q = Some (N + 1)
            \<and> 4 \<le> length q \<and> (length q = 4 \<longleftrightarrow> N + 1 < 10000)"
  unfolding Let_def
proof (intro conjI)
  show "next_invoice_number like today invoice_numbers
      = ''INV'' @ strftime_Y today @ strftime_m today
        @ zfill 4 (str_nat (length (filter (like (''INV'' @ strftime_Y today @ strftime_m today @ ''%''))
             invoice_numbers) + 1))"
    by (simp add: next_invoice_number_def invoice_prefix_def Let_def)
  show "length (strftime_Y today) = 4"
    using assms(2) by (rule length_strftime_Y)
  show "length (strftime_m today) = 2"
    using assms(4) by (rule length_strftime_m)
  show "parse_nat (strftime_Y today) = Some (year today)"
    unfolding strftime_Y_def by (rule parse_nat_zfill)
  show "parse_nat (strftime_m today) = Some (month today)"
    unfolding strftime_m_def by (rule parse_nat_zfill)
  show "parse_nat (zfill 4 (str_nat (length (filter (like (''INV'' @ strftime_Y today @ strftime_m today @ ''%''))
             invoice_numbers) + 1)))
      = Some (length (filter (like (''INV'' @ strftime_Y today @ strftime_m today @ ''%''))
             invoice_numbers) + 1)"
    by (rule parse_nat_zfill)
  show "4 \<le> length (zfill 4 (str_nat (length (filter (like (''INV'' @ strftime_Y today @ strftime_m today @ ''%''))
             invoice_numbers) + 1)))"
    by (simp add: length_zfill)
  show "length (zfill 4 (str_nat (length (filter (like (''INV'' @ strftime_Y today @ strftime_m today @ ''%''))
             invoice_numbers) + 1))) = 4
      \<longleftrightarrow> length (filter (like (''INV'' @ strftime_Y today @ strftime_m today @ ''%''))
             invoice_numbers) + 1 < 10000"
    by (rule length_seq)
qed

theorem next_invoice_number_format_witness:
  "1000 \<le> year \<lparr>year = 2025, month = 11, day = 3, hour = 9, minute = 30, second = 0\<rparr>
   \<and> year \<lparr>year = 2025, month = 11, day = 3, hour = 9, minute = 30, second = 0\<rparr> \<le> 9999
   \<and> 1 \<le> month \<lparr>year = 2025, month = 11, day = 3, hour = 9, minute = 30, second = 0\<rparr>
   \<and> month \<lparr>year = 2025, month = 11, day = 3, hour = 9, minute = 30, second = 0\<rparr> \<le> 12
   \<and> length (filter (sample_like ''INV202511%'')
        [''INV2025100001'', ''INV2025110001'', ''INV2025110002'', ''INV2025110003'',
         ''INV2025110004'', ''INV2025110005'', ''INV2025110006'']) = 6
   \<and> next_invoice_number sample_like
        \<lparr>year = 2025, month = 11, day = 3, hour = 9, minute = 30, second = 0\<rparr>
        [''INV2025100001'', ''INV2025110001'', ''INV2025110002'', ''INV2025110003'',
         ''INV2025110004'', ''INV2025110005'', ''INV2025110006'']
       = ''INV2025110007''"
proof -
  let ?t = "\<lparr>year = 2025, month = 11, day = 3, hour = 9, minute = 30, second = 0\<rparr>"
  let ?nums = "[''INV2025100001'', ''INV2025110001'', ''INV2025110002'', ''INV2025110003'',
         ''INV2025110004'', ''INV2025110005'', ''INV2025110006'']"
  have h: "1000 \<le> year ?t" "year ?t \<le> 9999" "1 \<le> month ?t" "month ?t \<le> 12" by simp_all
  have y: "strftime_Y ?t = ''2025''" by (simp add: fmt_eval)
  have m: "strftime_m ?t = ''11''" by (simp add: fmt_eval)
  have n: "length (filter (sample_like ''INV202511%'') ?nums) = 6" by (simp add: sample_like_def)
  have q: "zfill 4 (str_nat (6 + 1)) = ''0007''" by (simp add: fmt_eval)
  have "next_invoice_number sample_like ?t ?nums
      = ''INV'' @ strftime_Y ?t @ strftime_m ?t
        @ zfill 4 (str_nat (length (filter (sample_like (''INV'' @ strftime_Y ?t @ strftime_m ?t @ ''%''))
             ?nums) + 1))"
    using next_invoice_number_format [OF h, of sample_like ?nums]
    unfolding Let_def by (rule conjunct1)
  then have "next_invoice_number sample_like ?t ?nums = ''INV2025110007''"
    unfolding y m append.simps n q .
  with h n show ?thesis by simp
qed

theorem next_invoice_number_five_digits_counterexample:
  "length (allocate sample_like
       \<lparr>year = 2025, month = 11, day = 3, hour = 9, minute = 30, second = 0\<rparr> 9999 []) = 9999
   \<and> next_invoice_number sample_like
        \<lparr>year = 2025, month = 11, day = 3, hour = 9, minute = 30, second = 0\<rparr>
        (allocate sample_like
           \<lparr>year = 2025, month = 11, day = 3, hour = 9, minute = 30, second = 0\<rparr> 9999 [])
       = ''INV202511'' @ ''10000''"
  using allocate_then_next
    [of "\<lparr>year = 2025, month = 11, day = 3, hour = 9, minute = 30, second = 0\<rparr>" 9999]
  unfolding five_digits .

section \<open>Properties of the document renderer\<close>

lemma drawn_texts_append: "drawn_texts (a @ b) = drawn_texts a @ drawn_texts b"
  by (induction a rule: drawn_texts.induct) simp_all

lemma drawn_tables_append: "drawn_tables (a @ b) = drawn_tables a @ drawn_tables b"
  by (induction a rule: drawn_tables.induct) simp_all

lemma drawn_images_append: "drawn_images (a @ b) = drawn_images a @ drawn_images b"
  by (induction a rule: drawn_images.induct) simp_all

lemmas drawn_append = drawn_texts_append drawn_tables_append drawn_images_append

lemma draw_down_drawn:
  "drawn_texts (fst (draw_down x y step ls)) = ls"
  "drawn_tables (fst (draw_down x y step ls)) = []"
  "drawn_images (fst (draw_down x y step ls)) = []"
  by (induction ls arbitrary: y) (simp_all add: split_def Let_def)

lemma draw_lines_drawn:
  "drawn_texts (fst (draw_lines x y b ls)) = ls"
  "drawn_tables (fst (draw_lines x y b ls)) = []"
  "drawn_images (fst (draw_lines x y b ls)) = []"
  by (induction ls arbitrary: y b) (simp_all add: split_def Let_def)

lemma draw_field_drawn:
  "drawn_texts (fst (draw_field wrap label v x y)) = (label @ '':'') # wrap_text wrap v 70"
  "drawn_tables (fst (draw_field wrap label v x y)) = []"
  "drawn_images (fst (draw_field wrap label v x y)) = []"
  by (simp_all add: draw_field_def split_def Let_def drawn_append draw_lines_drawn)

text \<open>The lines a field of the left column shows for a value.\<close>

lemma draw_left_fields_drawn:
  "drawn_texts (fst (draw_left_fields wrap x y fs))
     = concat (map (\<lambda>(label, v). (label @ '':'') # wrap_text wrap (Some (or_str v ''NA'')) 70) fs)"
  "drawn_tables (fst (draw_left_fields wrap x y fs)) = []"
  "drawn_images (fst (draw_left_fields wrap x y fs)) = []"
  by (induction fs arbitrary: y) (auto simp: split_def Let_def drawn_append draw_field_drawn)

lemma draw_right_fields_drawn:
  "drawn_texts (fst (draw_right_fields x y fs))
     = concat (map (\<lambda>(label, v). [label @ '':'', or_str v ''NA'']) fs)"
  "drawn_tables (fst (draw_right_fields x y fs)) = []"
  "drawn_images (fst (draw_right_fields x y fs)) = []"
  by (induction fs arbitrary: y) (auto simp: split_def Let_def drawn_append)

lemma header_ops_drawn:
  "drawn_texts (fst (header_ops e neigh_logo))
     = ''Neighshop Global'' # wrap_text (textwrap_wrap e) (Some business_address) 80 @ [''+91 8307802643'']"
  "drawn_tables (fst (header_ops e neigh_logo)) = []"
  "drawn_images (fst (header_ops e neigh_logo)) = (case neigh_logo of None \<Rightarrow> [] | Some img \<Rightarrow> [img])"
  by (simp_all add: header_ops_def header_logo_def split_def Let_def drawn_append draw_down_drawn
      split: option.splits)

lemma parties_ops_drawn:
  "drawn_texts (fst (parties_ops e invoice dt y))
     = concat (map (\<lambda>(label, v). (label @ '':'') # wrap_text (textwrap_wrap e) (Some (or_str v ''NA'')) 70)
         (left_fields invoice))
       @ concat (map (\<lambda>(label, v). [label @ '':'', or_str v ''NA'']) (right_fields e invoice dt))"
  "drawn_tables (fst (parties_ops e invoice dt y)) = []"
  "drawn_images (fst (parties_ops e invoice dt y)) = []"
  by (simp_all add: parties_ops_def split_def Let_def drawn_append draw_left_fields_drawn
      draw_right_fields_drawn)

lemma table_ops_drawn:
  "drawn_texts (fst (table_ops e invoice y)) = []"
  "drawn_tables (fst (table_ops e invoice y)) = [cost_rows invoice]"
  "drawn_images (fst (table_ops e invoice y)) = []"
  by (simp_all add: table_ops_def Let_def)

lemma payment_ops_drawn:
  "drawn_texts (fst (payment_ops e y)) = ''Payment Details'' # payment_lines e"
  "drawn_tables (fst (payment_ops e y)) = []"
  "drawn_images (fst (payment_ops e y)) = []"
  by (simp_all add: payment_ops_def split_def Let_def drawn_append draw_down_drawn)

lemma qr_ops_drawn:
  "drawn_texts (fst (qr_ops qr_image y))
     = (case qr_image of None \<Rightarrow> [] | Some img \<Rightarrow> [''Scan UPI: 8307802643@axl''])"
  "drawn_tables (fst (qr_ops qr_image y)) = []"
  "drawn_images (fst (qr_ops qr_image y)) = (case qr_image of None \<Rightarrow> [] | Some img \<Rightarrow> [img])"
  by (simp_all add: qr_ops_def Let_def split: option.splits)

lemma footer_ops_drawn:
  "drawn_texts (footer_ops y) = [''Thank you for choosing Neighshop Global.'']"
  "drawn_tables (footer_ops y) = []"
  "drawn_images (footer_ops y) = []"
  by (simp_all add: footer_ops_def)

lemmas block_drawn = header_ops_drawn parties_ops_drawn table_ops_drawn payment_ops_drawn
  qr_ops_drawn footer_ops_drawn

lemma invoice_canvas_ops_texts:
  "drawn_texts (invoice_canvas_ops e invoice dt neigh_logo qr_image)
     = ''Neighshop Global'' # wrap_text (textwrap_wrap e) (Some business_address) 80
       @ [''+91 8307802643'']
       @ concat (map (\<lambda>(label, v). (label @ '':'') # wrap_text (textwrap_wrap e) (Some (or_str v ''NA'')) 70)
           (left_fields invoice))
       @ concat (map (\<lambda>(label, v). [label @ '':'', or_str v ''NA'']) (right_fields e invoice dt))
       @ ''Payment Details'' # payment_lines e
       @ (case qr_image of None \<Rightarrow> [] | Some img \<Rightarrow> [''Scan UPI: 8307802643@axl''])
       @ [''Thank you for choosing Neighshop Global.'']"
  by (simp add: invoice_canvas_ops_def split_def Let_def drawn_append block_drawn)

lemma invoice_canvas_ops_tables:
  "drawn_tables (invoice_canvas_ops e invoice dt neigh_logo qr_image) = [cost_rows invoice]"
  by (simp add: invoice_canvas_ops_def split_def Let_def drawn_append block_drawn)

lemma invoice_canvas_ops_images:
  "drawn_images (invoice_canvas_ops e invoice dt neigh_logo qr_image)
     = (case neigh_logo of None \<Rightarrow> [] | Some img \<Rightarrow> [img])
       @ (case qr_image of None \<Rightarrow> [] | Some img \<Rightarrow> [img])"
  by (simp add: invoice_canvas_ops_def split_def Let_def drawn_append block_drawn)

lemma digit_char_money: "d < 10 \<Longrightarrow> digit_char d \<in> money_chars"
proof -
  assume "d < 10"
  then have "d \<in> {0, 1, 2, 3, 4, 5, 6, 7, 8, 9}" by auto
  then show ?thesis by (auto simp: digit_char_def money_chars_def)
qed

lemma str_nat_money: "set (str_nat n) \<subseteq> money_chars"
proof (induction n rule: str_nat.induct)
  case (1 n)
  show ?case
  proof (cases "n < 10")
    case True
    then show ?thesis by (simp add: str_nat.simps [of n] digit_char_money)
  next
    case False
    with 1 show ?thesis by (simp add: str_nat.simps [of n] digit_char_money)
  qed
qed

lemma commas_rev_money: "set ds \<subseteq> money_chars \<Longrightarrow> set (commas_rev ds) \<subseteq> money_chars"
  by (induction ds rule: commas_rev.induct) (auto simp: money_chars_def)

lemma group3_money: "set ds \<subseteq> money_chars \<Longrightarrow> set (group3 ds) \<subseteq> money_chars"
  using commas_rev_money [of "rev ds"] by (simp add: group3_def)

lemma zfill_money: "set ds \<subseteq> money_chars \<Longrightarrow> set (zfill w ds) \<subseteq> money_chars"
  by (auto simp: zfill_def money_chars_def)

lemma format_money_unsigned:
  assumes "0 \<le> coeff d"
  shows "set (format_money d) \<subseteq> money_chars"
  using assms group3_money [OF str_nat_money] zfill_money [OF str_nat_money]
  by (simp add: format_money_def Let_def) (simp add: money_chars_def)

lemma dec_less_zero: "dec_less (Decimal 0 0) d \<longleftrightarrow> 0 < coeff d"
proof -
  have "\<not> (10::rat) powi expo d < 0"
    using pow10_pos [of "expo d"] by linarith
  then show ?thesis
    by (simp add: dec_less_def dec_val_def zero_less_mult_iff)
qed


lemma dec_val_pos: "0 < dec_val d \<longleftrightarrow> 0 < coeff d"
  using dec_less_zero [of d] by (simp add: dec_less_def dec_val_zero)

lemma plan_label_ne: "''Plan - '' @ s \<noteq> ''One-time Discount''"
  by simp

lemmas money_eval = format_money_def hundredths_def group3_def Let_def fmt_eval

lemma sample_amounts:
  "as_decimal_db (i_plan_price sample_invoice) = Decimal 49900 (- 2)"
  "as_decimal_db (i_setup_fee_amount sample_invoice) = Decimal 300000 (- 2)"
  "as_decimal_db (i_setup_fee_discount sample_invoice) = Decimal 50000 (- 2)"
  "as_decimal_db (i_subtotal sample_invoice) = Decimal 299900 (- 2)"
  "as_decimal_db (i_total sample_invoice) = Decimal 299900 (- 2)"
  "str_opt (i_plan_name sample_invoice) = ''Growth''"
  by (simp_all add: sample_invoice_def as_decimal_db_def str_opt_def)

lemma sample_formats:
  "format_money (Decimal 49900 (- 2)) = ''499.00''"
  "format_money (Decimal 300000 (- 2)) = ''3,000.00''"
  "format_money (Decimal 50000 (- 2)) = ''500.00''"
  "format_money (Decimal 299900 (- 2)) = ''2,999.00''"
  by (simp_all add: money_eval)

lemma rows1: "cost_rows sample_invoice
       = [[''Description'', ''Amount (INR)''],
          [''Plan - Growth'', ''499.00''],
          [''One-time Setup Fee'', ''3,000.00''],
          [''One-time Discount'', ''-500.00''],
          [''Subtotal'', ''2,999.00''],
          [''Grand Total'', ''2,999.00'']]"
  by (simp add: cost_rows_def Let_def sample_amounts sample_formats dec_less_zero)

text \<open>
  C6. The document holds one table, the cost breakdown. Its rows are, in this order, the
  header, the plan, the setup fee, the discount if there is one, the subtotal and the grand
  total. The discount row is present if and only if the setup-fee discount of the invoice
  is greater than zero, and then its amount is a minus sign followed by the discount
  formatted without a sign.
\<close>

theorem cost_rows_discount_line:
  "let d = as_decimal_db (i_setup_fee_discount invoice); rows = cost_rows invoice
   in drawn_tables (invoice_canvas_ops e invoice generated_dt neigh_logo qr_image) = [rows]
      \<and> map hd rows
          = [''Description'', ''Plan - '' @ str_opt (i_plan_name invoice), ''One-time Setup Fee'']
            @ (if 0 < dec_val d then [''One-time Discount''] else [])
            @ [''Subtotal'', ''Grand Total'']
      \<and> ((\<exists>a. [''One-time Discount'', a] \<in> set rows) \<longleftrightarrow> 0 < dec_val d)
      \<and> (0 < dec_val d \<longrightarrow>
            rows ! 3 = [''One-time Discount'', ''-'' @ format_money d]
            \<and> CHR ''-'' \<notin> set (format_money d))"
proof -
  let ?d = "as_decimal_db (i_setup_fee_discount invoice)"
  have 1: "drawn_tables (invoice_canvas_ops e invoice generated_dt neigh_logo qr_image)
      = [cost_rows invoice]"
    by (rule invoice_canvas_ops_tables)
  have 2: "map hd (cost_rows invoice)
      = [''Description'', ''Plan - '' @ str_opt (i_plan_name invoice), ''One-time Setup Fee'']
        @ (if 0 < dec_val ?d then [''One-time Discount''] else [])
        @ [''Subtotal'', ''Grand Total'']"
    by (simp add: cost_rows_def Let_def dec_less_zero dec_val_pos)
  have 3: "(\<exists>a. [''One-time Discount'', a] \<in> set (cost_rows invoice)) \<longleftrightarrow> 0 < dec_val ?d"
    by (auto simp: cost_rows_def Let_def dec_less_zero dec_val_pos)
  have 4: "cost_rows invoice ! 3 = [''One-time Discount'', ''-'' @ format_money ?d]"
    if "0 < dec_val ?d"
    using that by (simp add: cost_rows_def Let_def dec_less_zero dec_val_pos)
  have 5: "CHR ''-'' \<notin> set (format_money ?d)" if "0 < dec_val ?d"
  proof -
    from that have "0 \<le> coeff ?d" by (simp add: dec_val_pos)
    then have "set (format_money ?d) \<subseteq> money_chars" by (rule format_money_unsigned)
    then show ?thesis by (auto simp: money_chars_def)
  qed
  from 1 2 3 4 5 show ?thesis unfolding Let_def by blast
qed

theorem cost_rows_discount_line_witness:
  "0 < dec_val (as_decimal_db (i_setup_fee_discount sample_invoice))
   \<and> cost_rows sample_invoice ! 3 = [''One-time Discount'', ''-500.00'']
   \<and> map hd (cost_rows sample_invoice)
       = [''Description'', ''Plan - Growth'', ''One-time Setup Fee'', ''One-time Discount'',
          ''Subtotal'', ''Grand Total'']
   \<and> \<not> 0 < dec_val (as_decimal_db (i_setup_fee_discount
            (sample_invoice\<lparr>i_setup_fee_discount := Some (Decimal 0 (- 2))\<rparr>)))
   \<and> map hd (cost_rows (sample_invoice\<lparr>i_setup_fee_discount := Some (Decimal 0 (- 2))\<rparr>))
       = [''Description'', ''Plan - Growth'', ''One-time Setup Fee'', ''Subtotal'', ''Grand Total'']"
proof -
  let ?z = "sample_invoice\<lparr>i_setup_fee_discount := Some (Decimal 0 (- 2))\<rparr>"
  have d: "0 < dec_val (as_decimal_db (i_setup_fee_discount sample_invoice))"
    by (simp add: dec_val_pos sample_amounts)
  have z: "\<not> 0 < dec_val (as_decimal_db (i_setup_fee_discount ?z))"
    by (simp add: dec_val_pos as_decimal_db_def)
  have n: "str_opt (i_plan_name ?z) = ''Growth''"
    by (simp add: sample_amounts)
  note t1 = cost_rows_discount_line [of sample_invoice, unfolded Let_def]
  note t2 = cost_rows_discount_line [of ?z, unfolded Let_def]
  from t1 d have "cost_rows sample_invoice ! 3
      = [''One-time Discount'', ''-'' @ format_money (as_decimal_db (i_setup_fee_discount sample_invoice))]"
    by blast
  then have a: "cost_rows sample_invoice ! 3 = [''One-time Discount'', ''-500.00'']"
    by (simp add: sample_amounts sample_formats)
  from t1 have "map hd (cost_rows sample_invoice)
      = [''Description'', ''Plan - '' @ str_opt (i_plan_name sample_invoice), ''One-time Setup Fee'']
        @ (if 0 < dec_val (as_decimal_db (i_setup_fee_discount sample_invoice))
           then [''One-time Discount''] else [])
        @ [''Subtotal'', ''Grand Total'']"
    by blast
  then have b: "map hd (cost_rows sample_invoice)
       = [''Description'', ''Plan - Growth'', ''One-time Setup Fee'', ''One-time Discount'',
          ''Subtotal'', ''Grand Total'']"
    using d by (simp add: sample_amounts)
  from t2 have "map hd (cost_rows ?z)
      = [''Description'', ''Plan - '' @ str_opt (i_plan_name ?z), ''One-time Setup Fee'']
        @ (if 0 < dec_val (as_decimal_db (i_setup_fee_discount ?z))
           then [''One-time Discount''] else [])
        @ [''Subtotal'', ''Grand Total'']"
    by blast
  then have c: "map hd (cost_rows ?z)
       = [''Description'', ''Plan - Growth'', ''One-time Setup Fee'', ''Subtotal'', ''Grand Total'']"
    using z n by simp
  from d a b z c show ?thesis by blast
qed

lemma draw_field_ops:
  "fst (draw_field wrap label v x y)
     = [SetFont ''Helvetica-Bold'' 10, DrawString x y (label @ '':''), SetFont ''Helvetica'' 10]
       @ fst (draw_lines (x + 60) y True (wrap_text wrap v 70))"
  by (simp add: draw_field_def split_def Let_def)

lemma draw_left_fields_member:
  assumes "(label, v) \<in> set fs"
  shows "\<exists>before after y.
           fst (draw_left_fields wrap x y0 fs)
             = before @ fst (draw_field wrap label (Some (or_str v ''NA'')) x y) @ after"
  using assms
proof (induction fs arbitrary: y0)
  case Nil
  then show ?case by simp
next
  case (Cons f fs)
  obtain l w where f: "f = (l, w)" by (cases f)
  let ?d = "draw_field wrap l (Some (or_str w ''NA'')) x y0"
  have split: "fst (draw_left_fields wrap x y0 (f # fs))
      = fst ?d @ fst (draw_left_fields wrap x (snd ?d) fs)"
    by (simp add: f split_def Let_def)
  show ?case
  proof (cases "(label, v) = f")
    case True
    then have "fst (draw_left_fields wrap x y0 (f # fs))
        = [] @ fst (draw_field wrap label (Some (or_str v ''NA'')) x y0)
          @ fst (draw_left_fields wrap x (snd ?d) fs)"
      using split f by simp
    then show ?thesis by blast
  next
    case False
    with Cons.prems have "(label, v) \<in> set fs" by auto
    from Cons.IH [OF this, of "snd ?d"] obtain before after y where
      "fst (draw_left_fields wrap x (snd ?d) fs)
         = before @ fst (draw_field wrap label (Some (or_str v ''NA'')) x y) @ after"
      by blast
    then have "fst (draw_left_fields wrap x y0 (f # fs))
        = (fst ?d @ before) @ fst (draw_field wrap label (Some (or_str v ''NA'')) x y) @ after"
      using split by simp
    then show ?thesis by blast
  qed
qed

lemma invoice_canvas_ops_left:
  "\<exists>before after y0.
     invoice_canvas_ops e invoice dt neigh_logo qr_image
       = before @ fst (draw_left_fields (textwrap_wrap e) margin y0 (left_fields invoice)) @ after"
proof -
  let ?h = "header_ops e neigh_logo"
  let ?p = "parties_ops e invoice dt (snd ?h)"
  have p: "fst ?p = [SetFillColor ''black'']
      @ fst (draw_left_fields (textwrap_wrap e) margin (snd ?h) (left_fields invoice))
      @ fst (draw_right_fields (page_width / 2 + 16 * mm) (snd ?h) (right_fields e invoice dt))"
    by (simp add: parties_ops_def split_def Let_def)
  have "\<exists>rest. invoice_canvas_ops e invoice dt neigh_logo qr_image = fst ?h @ fst ?p @ rest"
    by (simp add: invoice_canvas_ops_def split_def Let_def)
  then obtain rest where "invoice_canvas_ops e invoice dt neigh_logo qr_image
      = fst ?h @ fst ?p @ rest" by blast
  then have "invoice_canvas_ops e invoice dt neigh_logo qr_image
      = (fst ?h @ [SetFillColor ''black''])
        @ fst (draw_left_fields (textwrap_wrap e) margin (snd ?h) (left_fields invoice))
        @ (fst (draw_right_fields (page_width / 2 + 16 * mm) (snd ?h) (right_fields e invoice dt))
           @ rest)"
    by (simp add: p)
  then show ?thesis by blast
qed

lemma shows_left_field:
  assumes "(label, v) \<in> set (left_fields invoice)"
  shows "shows_field (invoice_canvas_ops e invoice dt neigh_logo qr_image) label
           (wrap_text (textwrap_wrap e) (Some (or_str v ''NA'')) 70)"
proof -
  obtain b1 a1 y0 where 1: "invoice_canvas_ops e invoice dt neigh_logo qr_image
      = b1 @ fst (draw_left_fields (textwrap_wrap e) margin y0 (left_fields invoice)) @ a1"
    using invoice_canvas_ops_left by blast
  obtain b2 a2 y where 2: "fst (draw_left_fields (textwrap_wrap e) margin y0 (left_fields invoice))
      = b2 @ fst (draw_field (textwrap_wrap e) label (Some (or_str v ''NA'')) margin y) @ a2"
    using draw_left_fields_member [OF assms] by blast
  have "invoice_canvas_ops e invoice dt neigh_logo qr_image
      = (b1 @ b2)
        @ [SetFont ''Helvetica-Bold'' 10, DrawString margin y (label @ '':''), SetFont ''Helvetica'' 10]
        @ fst (draw_lines (margin + 60) y True (wrap_text (textwrap_wrap e) (Some (or_str v ''NA'')) 70))
        @ (a2 @ a1)"
    by (simp add: 1 2 draw_field_ops)
  then show ?thesis unfolding shows_field_def by blast
qed

lemma wrap_text_NA:
  assumes "wrap ''NA'' 70 = [''NA'']" and "\<not> str_truthy v"
  shows "wrap_text wrap (Some (or_str v ''NA'')) 70 = [''NA'']"
proof -
  from assms(2) have "or_str v ''NA'' = ''NA''"
    by (auto simp: str_truthy_def or_str_def split: option.splits)
  then show ?thesis
    using assms(1) by (simp add: wrap_text_def str_truthy_def Let_def)
qed

lemma wrap_text_present:
  assumes "str_truthy v"
  shows "wrap_text wrap (Some (or_str v ''NA'')) 70 = wrap_text wrap v 70"
  using assms by (auto simp: str_truthy_def or_str_def split: option.splits)

lemma sample_wrap_short:
  "sample_wrap ''NA'' 70 = [''NA'']"
  "sample_wrap ''9876543210'' 70 = [''9876543210'']"
  by (simp_all add: sample_wrap_def)

lemma sample_wrap_address:
  "sample_wrap business_address 80
     = [''Shri Ram Nagar, 8-B, opp. Dhanwantri Hospital & Research Centre, near New'',
        ''Sanganer Road, Mansarovar, Jaipur, Rajasthan 302020'']"
  by (simp add: sample_wrap_def business_address_def)

lemma sample_env_fields:
  "textwrap_wrap (sample_env now) = sample_wrap"
  "parse_datetime (sample_env now) = (\<lambda>v. None)"
  "now_ist (sample_env now) = now"
  "INVOICE_PAYMENT_LINES (sample_env now) = None"
  "logo_path_exists (sample_env now) = False"
  "http_get_image (sample_env now) = (\<lambda>url. None)"
  by (simp_all add: sample_env_def)

lemma sample_payment_lines:
  "payment_lines (sample_env now)
     = [''Bank Name: STATE BANK OF INDIA'', ''Account Holder: Suman Kumari'',
        ''Account Number: 42213259870'', ''UPI: 8307802643@axl'']"
  by (simp add: payment_lines_def sample_env_def str_truthy_def)

lemma sample_invoice_date:
  "format_invoice_date (sample_env now)
     (PDatetime \<lparr>year = 2025, month = 11, day = 3, hour = 9, minute = 30, second = 0\<rparr>)
     = ''03 Nov 2025''"
  by (simp add: format_invoice_date_def to_ist_datetime_def strftime_display_def month_abbr_def fmt_eval)

lemma sample_left:
  "left_fields sample_invoice
     = [(''Client'', Some ''9876543210''), (''Brand'', None), (''Email'', None),
        (''Phone'', Some ''9876543210''), (''Address'', None)]"
  by (simp add: left_fields_def sample_invoice_def or_else_def str_truthy_def)

lemma sample_wrap_text:
  "wrap_text sample_wrap (Some ''NA'') 70 = [''NA'']"
  "wrap_text sample_wrap (Some ''9876543210'') 70 = [''9876543210'']"
  "wrap_text sample_wrap (Some business_address) 80
     = [''Shri Ram Nagar, 8-B, opp. Dhanwantri Hospital & Research Centre, near New'',
        ''Sanganer Road, Mansarovar, Jaipur, Rajasthan 302020'']"
proof -
  have "business_address \<noteq> []" by (simp add: business_address_def)
  then show "wrap_text sample_wrap (Some business_address) 80
     = [''Shri Ram Nagar, 8-B, opp. Dhanwantri Hospital & Research Centre, near New'',
        ''Sanganer Road, Mansarovar, Jaipur, Rajasthan 302020'']"
    by (simp add: wrap_text_def str_truthy_def sample_wrap_address Let_def)
qed (simp_all add: wrap_text_def str_truthy_def sample_wrap_short Let_def)

text \<open>
  C9, as the code has it. Where \<^verbatim>\<open>textwrap.wrap\<close> leaves the text \<^verbatim>\<open>NA\<close> as it is, a
  client's brand, email, phone or address that is absent (null or empty) is shown as the
  literal \<^verbatim>\<open>NA\<close>. The Client field is different: it shows the name, or the phone when
  the name is absent, and \<^verbatim>\<open>NA\<close> only when both are absent. The counterexample is the
  sample invoice, whose client has no name: its Client field reads the phone number.
\<close>

theorem left_fields_placeholder:
  assumes "textwrap_wrap e ''NA'' 70 = [''NA'']"
  shows "let doc = invoice_canvas_ops e invoice generated_dt neigh_logo qr_image
         in (\<not> str_truthy (i_brand_name invoice) \<longrightarrow> shows_field doc ''Brand'' [''NA''])
          \<and> (\<not> str_truthy (i_lead_email invoice) \<longrightarrow> shows_field doc ''Email'' [''NA''])
          \<and> (\<not> str_truthy (i_lead_phone invoice) \<longrightarrow> shows_field doc ''Phone'' [''NA''])
          \<and> (\<not> str_truthy (i_lead_address invoice) \<longrightarrow> shows_field doc ''Address'' [''NA''])
          \<and> (\<not> str_truthy (i_lead_name invoice) \<and> \<not> str_truthy (i_lead_phone invoice)
               \<longrightarrow> shows_field doc ''Client'' [''NA''])
          \<and> (\<not> str_truthy (i_lead_name invoice) \<and> str_truthy (i_lead_phone invoice)
               \<longrightarrow> shows_field doc ''Client'' (wrap_text (textwrap_wrap e) (i_lead_phone invoice) 70))"
proof -
  let ?doc = "invoice_canvas_ops e invoice generated_dt neigh_logo qr_image"
  have field: "shows_field ?doc label [''NA'']"
    if "(label, v) \<in> set (left_fields invoice)" and "\<not> str_truthy v" for label v
    using shows_left_field [OF that(1), of e generated_dt neigh_logo qr_image]
      wrap_text_NA [of "textwrap_wrap e" v] assms that(2) by simp
  have brand: "\<not> str_truthy (i_brand_name invoice) \<longrightarrow> shows_field ?doc ''Brand'' [''NA'']"
    by (intro impI field [of _ "i_brand_name invoice"]) (simp_all add: left_fields_def)
  have email: "\<not> str_truthy (i_lead_email invoice) \<longrightarrow> shows_field ?doc ''Email'' [''NA'']"
    by (intro impI field [of _ "i_lead_email invoice"]) (simp_all add: left_fields_def)
  have phone: "\<not> str_truthy (i_lead_phone invoice) \<longrightarrow> shows_field ?doc ''Phone'' [''NA'']"
    by (intro impI field [of _ "i_lead_phone invoice"]) (simp_all add: left_fields_def)
  have address: "\<not> str_truthy (i_lead_address invoice) \<longrightarrow> shows_field ?doc ''Address'' [''NA'']"
    by (intro impI field [of _ "i_lead_address invoice"]) (simp_all add: left_fields_def)
  have client_na: "\<not> str_truthy (i_lead_name invoice) \<and> \<not> str_truthy (i_lead_phone invoice)
      \<longrightarrow> shows_field ?doc ''Client'' [''NA'']"
    by (intro impI field [of _ "or_else (i_lead_name invoice) (i_lead_phone invoice)"])
      (simp_all add: left_fields_def or_else_def)
  have client_phone: "\<not> str_truthy (i_lead_name invoice) \<and> str_truthy (i_lead_phone invoice)
      \<longrightarrow> shows_field ?doc ''Client'' (wrap_text (textwrap_wrap e) (i_lead_phone invoice) 70)"
  proof
    assume a: "\<not> str_truthy (i_lead_name invoice) \<and> str_truthy (i_lead_phone invoice)"
    then have o: "or_else (i_lead_name invoice) (i_lead_phone invoice) = i_lead_phone invoice"
      by (simp add: or_else_def)
    have "(''Client'', i_lead_phone invoice) \<in> set (left_fields invoice)"
      by (simp add: left_fields_def o)
    from shows_left_field [OF this, of e generated_dt neigh_logo qr_image]
    show "shows_field ?doc ''Client'' (wrap_text (textwrap_wrap e) (i_lead_phone invoice) 70)"
      using a by (simp add: wrap_text_present)
  qed
  from brand email phone address client_na client_phone show ?thesis
    unfolding Let_def by blast
qed

theorem left_fields_placeholder_witness:
  "textwrap_wrap (sample_env \<lparr>year = 2025, month = 11, day = 7, hour = 10, minute = 0, second = 0\<rparr>)
     ''NA'' 70 = [''NA'']
   \<and> \<not> str_truthy (i_lead_email sample_invoice)
   \<and> shows_field (invoice_canvas_ops
         (sample_env \<lparr>year = 2025, month = 11, day = 7, hour = 10, minute = 0, second = 0\<rparr>)
         sample_invoice
         \<lparr>year = 2025, month = 11, day = 3, hour = 9, minute = 30, second = 0\<rparr> None None)
       ''Email'' [''NA'']
   \<and> \<not> str_truthy (i_brand_name sample_invoice)
   \<and> shows_field (invoice_canvas_ops
         (sample_env \<lparr>year = 2025, month = 11, day = 7, hour = 10, minute = 0, second = 0\<rparr>)
         sample_invoice
         \<lparr>year = 2025, month = 11, day = 3, hour = 9, minute = 30, second = 0\<rparr> None None)
       ''Brand'' [''NA'']
   \<and> \<not> str_truthy (i_lead_name sample_invoice)
   \<and> str_truthy (i_lead_phone sample_invoice)
   \<and> shows_field (invoice_canvas_ops
         (sample_env \<lparr>year = 2025, month = 11, day = 7, hour = 10, minute = 0, second = 0\<rparr>)
         sample_invoice
         \<lparr>year = 2025, month = 11, day = 3, hour = 9, minute = 30, second = 0\<rparr> None None)
       ''Client'' [''9876543210'']"
proof -
  let ?e = "sample_env \<lparr>year = 2025, month = 11, day = 7, hour = 10, minute = 0, second = 0\<rparr>"
  have w: "textwrap_wrap ?e ''NA'' 70 = [''NA'']"
    by (simp add: sample_env_fields sample_wrap_short)
  have f: "\<not> str_truthy (i_lead_email sample_invoice)" "\<not> str_truthy (i_brand_name sample_invoice)"
    "\<not> str_truthy (i_lead_name sample_invoice)" "str_truthy (i_lead_phone sample_invoice)"
    by (simp_all add: sample_invoice_def str_truthy_def)
  have p: "wrap_text (textwrap_wrap ?e) (i_lead_phone sample_invoice) 70 = [''9876543210'']"
    by (simp add: sample_env_fields sample_wrap_text) (simp add: sample_invoice_def sample_wrap_text)
  note t = left_fields_placeholder [OF w, of sample_invoice
      "\<lparr>year = 2025, month = 11, day = 3, hour = 9, minute = 30, second = 0\<rparr>" None None,
      unfolded Let_def p]
  from t w f show ?thesis by blast
qed

theorem client_field_phone_counterexample:
  "i_lead_name sample_invoice = None
   \<and> drawn_texts (invoice_canvas_ops
         (sample_env \<lparr>year = 2025, month = 11, day = 7, hour = 10, minute = 0, second = 0\<rparr>)
         sample_invoice
         \<lparr>year = 2025, month = 11, day = 3, hour = 9, minute = 30, second = 0\<rparr> None None)
       = [''Neighshop Global'',
          ''Shri Ram Nagar, 8-B, opp. Dhanwantri Hospital & Research Centre, near New'',
          ''Sanganer Road, Mansarovar, Jaipur, Rajasthan 302020'',
          ''+91 8307802643'',
          ''Client:'', ''9876543210'', ''Brand:'', ''NA'', ''Email:'', ''NA'',
          ''Phone:'', ''9876543210'', ''Address:'', ''NA'',
          ''Invoice #:'', ''INV2025110007'', ''Invoice Date:'', ''03 Nov 2025'',
          ''Plan:'', ''Growth'',
          ''Payment Details'', ''Bank Name: STATE BANK OF INDIA'', ''Account Holder: Suman Kumari'',
          ''Account Number: 42213259870'', ''UPI: 8307802643@axl'',
          ''Thank you for choosing Neighshop Global.'']"
proof -
  have r: "right_fields
      (sample_env \<lparr>year = 2025, month = 11, day = 7, hour = 10, minute = 0, second = 0\<rparr>)
      sample_invoice \<lparr>year = 2025, month = 11, day = 3, hour = 9, minute = 30, second = 0\<rparr>
      = [(''Invoice #'', Some ''INV2025110007''), (''Invoice Date'', Some ''03 Nov 2025''),
         (''Plan'', Some ''Growth'')]"
    by (simp add: right_fields_def sample_invoice_date) (simp add: sample_invoice_def)
  have n: "i_lead_name sample_invoice = None"
    by (simp add: sample_invoice_def)
  show ?thesis
    by (simp add: n invoice_canvas_ops_texts sample_env_fields sample_left r sample_payment_lines
        sample_wrap_text or_str_def)
qed

lemma generate_invoice_pdf_result:
  "generate_invoice_pdf e invoice st
     = (let logo = get_logo_image e
                     (Some (if logo_path_exists e then ''local_neighshop'' else NEIGHSHOP_LOGO_URL e))
                     (LOGO_CACHE st);
            qr = get_logo_image e (Some qr_url) (snd logo)
        in (''/files/invoices/'' @ pdf_filename e invoice,
            invoice\<lparr>i_generated_at := PDatetime (generated_dt_of e invoice)\<rparr>,
            \<lparr>LOGO_CACHE = snd qr,
             pdf_dir = (pdf_dir st)(pdf_filename e invoice \<mapsto>
               invoice_canvas_ops e invoice (generated_dt_of e invoice) (fst logo) (fst qr))\<rparr>))"
  by (simp add: generate_invoice_pdf_def split_def Let_def)

lemma header_ops_no_logo:
  "fst (header_ops e None)
     = [SetFillColor ''#0F172A'', SetFont ''Helvetica-Bold'' 18,
        DrawString margin (page_height - margin - 12) ''Neighshop Global'',
        SetFont ''Helvetica'' 9]
       @ fst (draw_down margin (page_height - margin - 12 - 18) 11
                (wrap_text (textwrap_wrap e) (Some business_address) 80 @ [''+91 8307802643'']))
       @ [SetStrokeColor ''#CBD5F5'',
          Line margin (snd (draw_down margin (page_height - margin - 12 - 18) 11
                (wrap_text (textwrap_wrap e) (Some business_address) 80 @ [''+91 8307802643''])) - 6)
            (page_width - margin)
            (snd (draw_down margin (page_height - margin - 12 - 18) 11
                (wrap_text (textwrap_wrap e) (Some business_address) 80 @ [''+91 8307802643''])) - 6)]"
  by (simp add: header_ops_def header_logo_def split_def Let_def)

lemma header_ops_logo:
  "fst (header_ops e (Some img))
     = [DrawImage img margin (page_height - margin - 32 * mm + 35) (32 * mm) (32 * mm),
        SetFillColor ''#0F172A'', SetFont ''Helvetica-Bold'' 18,
        DrawString (margin + 32 * mm + 10) (page_height - margin - 8) ''Neighshop Global'',
        SetFont ''Helvetica'' 9]
       @ fst (draw_down (margin + 32 * mm + 10) (page_height - margin - 8 - 18) 11
                (wrap_text (textwrap_wrap e) (Some business_address) 80 @ [''+91 8307802643'']))
       @ [SetStrokeColor ''#CBD5F5'',
          Line margin (snd (draw_down (margin + 32 * mm + 10) (page_height - margin - 8 - 18) 11
                (wrap_text (textwrap_wrap e) (Some business_address) 80 @ [''+91 8307802643''])) - 6)
            (page_width - margin)
            (snd (draw_down (margin + 32 * mm + 10) (page_height - margin - 8 - 18) 11
                (wrap_text (textwrap_wrap e) (Some business_address) 80 @ [''+91 8307802643''])) - 6)]"
  by (simp add: header_ops_def header_logo_def split_def Let_def)

lemma invoice_canvas_ops_head:
  "invoice_canvas_ops e invoice dt neigh_logo qr_image
     = fst (header_ops e neigh_logo)
       @ drop (length (fst (header_ops e neigh_logo)))
           (invoice_canvas_ops e invoice dt neigh_logo qr_image)"
  by (simp add: invoice_canvas_ops_def split_def Let_def)

lemma doc_no_logo_head:
  "\<exists>rest. invoice_canvas_ops e invoice dt None qr_image
      = [SetFillColor ''#0F172A'', SetFont ''Helvetica-Bold'' 18,
         DrawString margin (page_height - margin - 12) ''Neighshop Global'',
         SetFont ''Helvetica'' 9]
        @ fst (draw_down margin (page_height - margin - 12 - 18) 11
                (wrap_text (textwrap_wrap e) (Some business_address) 80 @ [''+91 8307802643'']))
        @ rest"
  apply (subst invoice_canvas_ops_head)
  apply (subst header_ops_no_logo)
  apply (simp only: append_assoc)
  apply (rule exI)
  apply (rule refl)
  done

lemma doc_logo_head:
  "\<exists>rest. invoice_canvas_ops e invoice dt (Some img) qr_image
      = [DrawImage img margin (page_height - margin - 32 * mm + 35) (32 * mm) (32 * mm),
         SetFillColor ''#0F172A'', SetFont ''Helvetica-Bold'' 18,
         DrawString (margin + 32 * mm + 10) (page_height - margin - 8) ''Neighshop Global'',
         SetFont ''Helvetica'' 9]
        @ fst (draw_down (margin + 32 * mm + 10) (page_height - margin - 8 - 18) 11
                (wrap_text (textwrap_wrap e) (Some business_address) 80 @ [''+91 8307802643'']))
        @ rest"
  apply (subst invoice_canvas_ops_head)
  apply (subst header_ops_logo)
  apply (simp only: append_assoc)
  apply (rule exI)
  apply (rule refl)
  done

lemma invoice_canvas_ops_end:
  "\<exists>before. invoice_canvas_ops e invoice dt neigh_logo qr_image = before @ [ShowPage, Save]"
proof -
  have "\<exists>before y. invoice_canvas_ops e invoice dt neigh_logo qr_image = before @ footer_ops y"
    unfolding invoice_canvas_ops_def split_def Let_def
    apply (simp only: append_assoc [symmetric])
    apply (rule exI)
    apply (rule exI)
    apply (rule refl)
    done
  then obtain before y where "invoice_canvas_ops e invoice dt neigh_logo qr_image
      = before @ footer_ops y" by blast
  then have "invoice_canvas_ops e invoice dt neigh_logo qr_image
      = (before @ [SetFont ''Helvetica'' 10,
           DrawString margin (y - 8) ''Thank you for choosing Neighshop Global.''])
        @ [ShowPage, Save]"
    by (simp add: footer_ops_def)
  then show ?thesis by blast
qed

lemma texts_independent_of_logo:
  "drawn_texts (invoice_canvas_ops e invoice dt logo1 qr_image)
     = drawn_texts (invoice_canvas_ops e invoice dt logo2 qr_image)"
  by (simp add: invoice_canvas_ops_texts)

lemma sample_get_logo:
  assumes "u \<noteq> []" and "cache_get cache u = None"
  shows "get_logo_image (sample_env now) (Some u) cache = (None, cache(u \<mapsto> None))"
  using assms by (simp add: get_logo_image_def sample_env_def str_truthy_def Let_def)

lemma sample_filename:
  "pdf_filename (sample_env now) sample_invoice = ''INV_20251103T093000_7.pdf''"
  by (simp add: pdf_filename_def generated_dt_of_def to_ist_datetime_def sample_invoice_def
      strftime_stamp_def str_int_def fmt_eval)

lemma sample_logo_url:
  "(if logo_path_exists (sample_env now) then ''local_neighshop'' else NEIGHSHOP_LOGO_URL (sample_env now))
     = ''https://github.com/AKM-dv/servicemate/blob/main/logo-details%202.png?raw=true''"
  by (simp add: sample_env_def)

lemma sample_first_logo:
  "get_logo_image (sample_env now)
     (Some (if logo_path_exists (sample_env now) then ''local_neighshop''
            else NEIGHSHOP_LOGO_URL (sample_env now))) Map.empty
   = (None, [''https://github.com/AKM-dv/servicemate/blob/main/logo-details%202.png?raw=true'' \<mapsto> None])"
  unfolding sample_logo_url by (rule sample_get_logo) (simp_all add: cache_get_def)

lemma sample_qr:
  "fst (get_logo_image (sample_env now) (Some qr_url)
     [''https://github.com/AKM-dv/servicemate/blob/main/logo-details%202.png?raw=true'' \<mapsto> None])
   = None"
proof -
  have "qr_url \<noteq> []" by (simp add: qr_url_def)
  moreover have "cache_get
      [''https://github.com/AKM-dv/servicemate/blob/main/logo-details%202.png?raw=true'' \<mapsto> None]
      qr_url = None"
    by (simp add: cache_get_def)
  ultimately show ?thesis by (simp add: sample_get_logo)
qed

lemma pdf_filename_generated_at:
  assumes "i_generated_at invoice = PDatetime t"
  shows "pdf_filename e invoice
           = ''INV_'' @ strftime_stamp t @ ''_'' @ str_int (i_lead_id invoice) @ ''.pdf''"
  using assms by (simp add: pdf_filename_def generated_dt_of_def to_ist_datetime_def)

lemma generate_invoice_pdf_url:
  "fst (generate_invoice_pdf e invoice st) = ''/files/invoices/'' @ pdf_filename e invoice"
  by (simp add: generate_invoice_pdf_result Let_def)

lemma generate_invoice_pdf_dom:
  "dom (pdf_dir (snd (snd (generate_invoice_pdf e invoice st))))
     = insert (pdf_filename e invoice) (dom (pdf_dir st))"
  by (simp add: generate_invoice_pdf_result Let_def)

lemma generate_invoice_pdf_invoice:
  "fst (snd (generate_invoice_pdf e invoice st))
     = invoice\<lparr>i_generated_at := PDatetime (generated_dt_of e invoice)\<rparr>"
  by (simp add: generate_invoice_pdf_result Let_def)

text \<open>
  C8. When \<^verbatim>\<open>get_logo_image\<close> returns no primary logo (the file could not be read, or
  the fetch or the decoding failed), \<^verbatim>\<open>generate_invoice_pdf\<close> still returns the URL and
  saves the document. The document draws exactly the strings it draws when the logo
  loads, in the same order; it draws no image but the QR image, if that one loaded; its
  title and the address lines below it start at the margin, where with a logo they start
  at the right of the image; and it runs to \<^verbatim>\<open>showPage()\<close> and \<^verbatim>\<open>save()\<close>.
\<close>

theorem render_without_logo:
  assumes "fst (get_logo_image e
                 (Some (if logo_path_exists e then ''local_neighshop'' else NEIGHSHOP_LOGO_URL e))
                 (LOGO_CACHE st)) = None"
  shows "let logo = get_logo_image e
                     (Some (if logo_path_exists e then ''local_neighshop'' else NEIGHSHOP_LOGO_URL e))
                     (LOGO_CACHE st);
             qr_image = fst (get_logo_image e (Some qr_url) (snd logo));
             generated_dt = generated_dt_of e invoice;
             header_lines = wrap_text (textwrap_wrap e) (Some business_address) 80 @ [''+91 8307802643''];
             doc = invoice_canvas_ops e invoice generated_dt None qr_image
         in fst (generate_invoice_pdf e invoice st) = ''/files/invoices/'' @ pdf_filename e invoice
          \<and> pdf_dir (snd (snd (generate_invoice_pdf e invoice st))) (pdf_filename e invoice) = Some doc
          \<and> (\<forall>img. drawn_texts (invoice_canvas_ops e invoice generated_dt (Some img) qr_image)
                      = drawn_texts doc)
          \<and> drawn_images doc = (case qr_image of None \<Rightarrow> [] | Some q \<Rightarrow> [q])
          \<and> (\<exists>rest. doc
                = [SetFillColor ''#0F172A'', SetFont ''Helvetica-Bold'' 18,
                   DrawString margin (page_height - margin - 12) ''Neighshop Global'',
                   SetFont ''Helvetica'' 9]
                  @ fst (draw_down margin (page_height - margin - 12 - 18) 11 header_lines) @ rest)
          \<and> (\<forall>img. \<exists>rest.
                invoice_canvas_ops e invoice generated_dt (Some img) qr_image
                = [DrawImage img margin (page_height - margin - 32 * mm + 35) (32 * mm) (32 * mm),
                   SetFillColor ''#0F172A'', SetFont ''Helvetica-Bold'' 18,
                   DrawString (margin + 32 * mm + 10) (page_height - margin - 8) ''Neighshop Global'',
                   SetFont ''Helvetica'' 9]
                  @ fst (draw_down (margin + 32 * mm + 10) (page_height - margin - 8 - 18) 11
                           header_lines) @ rest)
          \<and> (\<exists>before. doc = before @ [ShowPage, Save])"
proof -
  let ?logo = "get_logo_image e
      (Some (if logo_path_exists e then ''local_neighshop'' else NEIGHSHOP_LOGO_URL e)) (LOGO_CACHE st)"
  let ?qr = "fst (get_logo_image e (Some qr_url) (snd ?logo))"
  let ?dt = "generated_dt_of e invoice"
  let ?lines = "wrap_text (textwrap_wrap e) (Some business_address) 80 @ [''+91 8307802643'']"
  let ?doc = "invoice_canvas_ops e invoice ?dt None ?qr"
  have 1: "fst (generate_invoice_pdf e invoice st) = ''/files/invoices/'' @ pdf_filename e invoice"
    by (simp add: generate_invoice_pdf_result Let_def)
  have 2: "pdf_dir (snd (snd (generate_invoice_pdf e invoice st))) (pdf_filename e invoice) = Some ?doc"
    using assms by (simp add: generate_invoice_pdf_result Let_def)
  have 3: "\<forall>img. drawn_texts (invoice_canvas_ops e invoice ?dt (Some img) ?qr) = drawn_texts ?doc"
    by (intro allI texts_independent_of_logo)
  have 4: "drawn_images ?doc = (case ?qr of None \<Rightarrow> [] | Some q \<Rightarrow> [q])"
    by (simp add: invoice_canvas_ops_images)
  have 5: "\<exists>rest. ?doc
      = [SetFillColor ''#0F172A'', SetFont ''Helvetica-Bold'' 18,
         DrawString margin (page_height - margin - 12) ''Neighshop Global'',
         SetFont ''Helvetica'' 9]
        @ fst (draw_down margin (page_height - margin - 12 - 18) 11 ?lines) @ rest"
    by (rule doc_no_logo_head)
  have 6: "\<forall>img. \<exists>rest. invoice_canvas_ops e invoice ?dt (Some img) ?qr
      = [DrawImage img margin (page_height - margin - 32 * mm + 35) (32 * mm) (32 * mm),
         SetFillColor ''#0F172A'', SetFont ''Helvetica-Bold'' 18,
         DrawString (margin + 32 * mm + 10) (page_height - margin - 8) ''Neighshop Global'',
         SetFont ''Helvetica'' 9]
        @ fst (draw_down (margin + 32 * mm + 10) (page_height - margin - 8 - 18) 11 ?lines) @ rest"
    by (intro allI doc_logo_head)
  have 7: "\<exists>before. ?doc = before @ [ShowPage, Save]"
    by (rule invoice_canvas_ops_end)
  from 1 2 3 4 5 6 7 show ?thesis
    unfolding Let_def by (intro conjI)
qed

theorem render_without_logo_witness:
  "fst (get_logo_image
          (sample_env \<lparr>year = 2025, month = 11, day = 7, hour = 10, minute = 0, second = 0\<rparr>)
          (Some (if logo_path_exists
                      (sample_env \<lparr>year = 2025, month = 11, day = 7, hour = 10, minute = 0, second = 0\<rparr>)
                 then ''local_neighshop''
                 else NEIGHSHOP_LOGO_URL
                      (sample_env \<lparr>year = 2025, month = 11, day = 7, hour = 10, minute = 0, second = 0\<rparr>)))
          (LOGO_CACHE \<lparr>LOGO_CACHE = Map.empty, pdf_dir = Map.empty\<rparr>)) = None
   \<and> fst (generate_invoice_pdf
          (sample_env \<lparr>year = 2025, month = 11, day = 7, hour = 10, minute = 0, second = 0\<rparr>)
          sample_invoice \<lparr>LOGO_CACHE = Map.empty, pdf_dir = Map.empty\<rparr>)
       = ''/files/invoices/INV_20251103T093000_7.pdf''
   \<and> map_option drawn_images
         (pdf_dir (snd (snd (generate_invoice_pdf
            (sample_env \<lparr>year = 2025, month = 11, day = 7, hour = 10, minute = 0, second = 0\<rparr>)
            sample_invoice \<lparr>LOGO_CACHE = Map.empty, pdf_dir = Map.empty\<rparr>)))
           ''INV_20251103T093000_7.pdf'')
       = Some []
   \<and> map_option (take 3)
         (pdf_dir (snd (snd (generate_invoice_pdf
            (sample_env \<lparr>year = 2025, month = 11, day = 7, hour = 10, minute = 0, second = 0\<rparr>)
            sample_invoice \<lparr>LOGO_CACHE = Map.empty, pdf_dir = Map.empty\<rparr>)))
           ''INV_20251103T093000_7.pdf'')
       = Some [SetFillColor ''#0F172A'', SetFont ''Helvetica-Bold'' 18,
               DrawString margin (page_height - margin - 12) ''Neighshop Global'']"
proof -
  let ?e = "sample_env \<lparr>year = 2025, month = 11, day = 7, hour = 10, minute = 0, second = 0\<rparr>"
  let ?st = "\<lparr>LOGO_CACHE = Map.empty, pdf_dir = Map.empty\<rparr>"
  let ?logo = "get_logo_image ?e
      (Some (if logo_path_exists ?e then ''local_neighshop'' else NEIGHSHOP_LOGO_URL ?e))
      (LOGO_CACHE ?st)"
  let ?qr = "fst (get_logo_image ?e (Some qr_url) (snd ?logo))"
  let ?doc = "invoice_canvas_ops ?e sample_invoice (generated_dt_of ?e sample_invoice) None ?qr"
  have l: "?logo
      = (None, [''https://github.com/AKM-dv/servicemate/blob/main/logo-details%202.png?raw=true'' \<mapsto> None])"
    using sample_first_logo [of "\<lparr>year = 2025, month = 11, day = 7, hour = 10, minute = 0, second = 0\<rparr>"]
    by simp
  then have h: "fst ?logo = None" by simp
  have q: "?qr = None"
    unfolding l snd_conv by (rule sample_qr)
  note t = render_without_logo [OF h, of sample_invoice, unfolded Let_def sample_filename]
  from t have u: "fst (generate_invoice_pdf ?e sample_invoice ?st)
      = ''/files/invoices/'' @ ''INV_20251103T093000_7.pdf''"
    by (rule conjunct1)
  from t have d: "pdf_dir (snd (snd (generate_invoice_pdf ?e sample_invoice ?st)))
      ''INV_20251103T093000_7.pdf'' = Some ?doc"
    by blast
  from t have "drawn_images ?doc = (case ?qr of None \<Rightarrow> [] | Some q \<Rightarrow> [q])"
    by blast
  then have i: "drawn_images ?doc = []"
    by (simp only: q option.case)
  from t obtain rest where "?doc
      = [SetFillColor ''#0F172A'', SetFont ''Helvetica-Bold'' 18,
         DrawString margin (page_height - margin - 12) ''Neighshop Global'',
         SetFont ''Helvetica'' 9]
        @ fst (draw_down margin (page_height - margin - 12 - 18) 11
            (wrap_text (textwrap_wrap ?e) (Some business_address) 80 @ [''+91 8307802643''])) @ rest"
    by blast
  then have k: "take 3 ?doc = [SetFillColor ''#0F172A'', SetFont ''Helvetica-Bold'' 18,
         DrawString margin (page_height - margin - 12) ''Neighshop Global'']"
    by simp
  from u have u': "fst (generate_invoice_pdf ?e sample_invoice ?st)
      = ''/files/invoices/INV_20251103T093000_7.pdf''"
    by simp
  have a: "map_option drawn_images
      (pdf_dir (snd (snd (generate_invoice_pdf ?e sample_invoice ?st))) ''INV_20251103T093000_7.pdf'')
      = Some []"
    by (simp only: d option.map i)
  have b: "map_option (take 3)
      (pdf_dir (snd (snd (generate_invoice_pdf ?e sample_invoice ?st))) ''INV_20251103T093000_7.pdf'')
      = Some [SetFillColor ''#0F172A'', SetFont ''Helvetica-Bold'' 18,
         DrawString margin (page_height - margin - 12) ''Neighshop Global'']"
    by (simp only: d option.map k)
  from h u' a b show ?thesis by blast
qed

text \<open>
  C5, as the code has it. The file name is built from the invoice's own
  \<^verbatim>\<open>generated_at\<close> and the client id, not from the time of rendering. An invoice read
  from the database carries a datetime there, so rendering it twice, or rendering again
  the dictionary the first call updated, gives the same URL and the same file name both
  times, whatever the clock and the environment of each call: the second call saves over
  the file of the first and the directory gains no second file. The counterexample
  renders the sample invoice at two different times and finds one file.
\<close>

theorem render_twice_same_file:
  assumes "i_generated_at invoice = PDatetime t"
  shows "let name = ''INV_'' @ strftime_stamp t @ ''_'' @ str_int (i_lead_id invoice) @ ''.pdf'';
             r1 = generate_invoice_pdf e1 invoice st;
             r2 = generate_invoice_pdf e2 invoice (snd (snd r1));
             r3 = generate_invoice_pdf e2 (fst (snd r1)) (snd (snd r1))
         in fst r1 = ''/files/invoices/'' @ name
          \<and> fst r2 = fst r1 \<and> fst r3 = fst r1
          \<and> dom (pdf_dir (snd (snd r1))) = insert name (dom (pdf_dir st))
          \<and> dom (pdf_dir (snd (snd r2))) = dom (pdf_dir (snd (snd r1)))
          \<and> dom (pdf_dir (snd (snd r3))) = dom (pdf_dir (snd (snd r1)))"
proof -
  let ?name = "''INV_'' @ strftime_stamp t @ ''_'' @ str_int (i_lead_id invoice) @ ''.pdf''"
  let ?r1 = "generate_invoice_pdf e1 invoice st"
  have n: "pdf_filename e invoice = ?name" for e
    using assms by (rule pdf_filename_generated_at)
  have g: "generated_dt_of e1 invoice = t"
    using assms by (simp add: generated_dt_of_def to_ist_datetime_def)
  have i: "fst (snd ?r1) = invoice\<lparr>i_generated_at := PDatetime t\<rparr>"
    by (simp add: generate_invoice_pdf_invoice g)
  have n': "pdf_filename e (fst (snd ?r1)) = ?name" for e
    using pdf_filename_generated_at [of "fst (snd ?r1)" t e] by (simp add: i)
  show ?thesis
    unfolding Let_def
    by (simp only: generate_invoice_pdf_url generate_invoice_pdf_dom n n' insert_absorb2)
qed

theorem render_twice_same_file_witness:
  "i_generated_at sample_invoice
     = PDatetime \<lparr>year = 2025, month = 11, day = 3, hour = 9, minute = 30, second = 0\<rparr>
   \<and> fst (generate_invoice_pdf
          (sample_env \<lparr>year = 2025, month = 11, day = 7, hour = 10, minute = 0, second = 0\<rparr>)
          sample_invoice \<lparr>LOGO_CACHE = Map.empty, pdf_dir = Map.empty\<rparr>)
       = ''/files/invoices/INV_20251103T093000_7.pdf''
   \<and> dom (pdf_dir (snd (snd (generate_invoice_pdf
          (sample_env \<lparr>year = 2025, month = 11, day = 7, hour = 10, minute = 0, second = 0\<rparr>)
          sample_invoice \<lparr>LOGO_CACHE = Map.empty, pdf_dir = Map.empty\<rparr>))))
       = {''INV_20251103T093000_7.pdf''}"
proof -
  let ?t = "\<lparr>year = 2025, month = 11, day = 3, hour = 9, minute = 30, second = 0\<rparr>"
  let ?e = "sample_env \<lparr>year = 2025, month = 11, day = 7, hour = 10, minute = 0, second = 0\<rparr>"
  let ?st = "\<lparr>LOGO_CACHE = Map.empty, pdf_dir = Map.empty\<rparr>"
  have h: "i_generated_at sample_invoice = PDatetime ?t"
    by (simp add: sample_invoice_def)
  have n: "''INV_'' @ strftime_stamp ?t @ ''_'' @ str_int (i_lead_id sample_invoice) @ ''.pdf''
      = ''INV_20251103T093000_7.pdf''"
    by (simp add: sample_invoice_def strftime_stamp_def str_int_def fmt_eval)
  note t = render_twice_same_file [OF h, of ?e ?st ?e, unfolded Let_def n]
  from t have "fst (generate_invoice_pdf ?e sample_invoice ?st)
      = ''/files/invoices/'' @ ''INV_20251103T093000_7.pdf''"
    by (rule conjunct1)
  then have u: "fst (generate_invoice_pdf ?e sample_invoice ?st)
      = ''/files/invoices/INV_20251103T093000_7.pdf''"
    by simp
  from t have "dom (pdf_dir (snd (snd (generate_invoice_pdf ?e sample_invoice ?st))))
      = insert ''INV_20251103T093000_7.pdf'' (dom (pdf_dir ?st))"
    by blast
  then have d: "dom (pdf_dir (snd (snd (generate_invoice_pdf ?e sample_invoice ?st))))
      = {''INV_20251103T093000_7.pdf''}"
    by simp
  from h u d show ?thesis by blast
qed

theorem render_twice_one_file_counterexample:
  "fst (generate_invoice_pdf
          (sample_env \<lparr>year = 2025, month = 11, day = 7, hour = 10, minute = 0, second = 0\<rparr>)
          sample_invoice \<lparr>LOGO_CACHE = Map.empty, pdf_dir = Map.empty\<rparr>)
     = ''/files/invoices/INV_20251103T093000_7.pdf''
   \<and> fst (generate_invoice_pdf
          (sample_env \<lparr>year = 2025, month = 12, day = 24, hour = 18, minute = 45, second = 10\<rparr>)
          sample_invoice
          (snd (snd (generate_invoice_pdf
             (sample_env \<lparr>year = 2025, month = 11, day = 7, hour = 10, minute = 0, second = 0\<rparr>)
             sample_invoice \<lparr>LOGO_CACHE = Map.empty, pdf_dir = Map.empty\<rparr>))))
     = ''/files/invoices/INV_20251103T093000_7.pdf''
   \<and> dom (pdf_dir (snd (snd (generate_invoice_pdf
          (sample_env \<lparr>year = 2025, month = 12, day = 24, hour = 18, minute = 45, second = 10\<rparr>)
          sample_invoice
          (snd (snd (generate_invoice_pdf
             (sample_env \<lparr>year = 2025, month = 11, day = 7, hour = 10, minute = 0, second = 0\<rparr>)
             sample_invoice \<lparr>LOGO_CACHE = Map.empty, pdf_dir = Map.empty\<rparr>)))))))
     = {''INV_20251103T093000_7.pdf''}"
  by (simp add: generate_invoice_pdf_url generate_invoice_pdf_dom sample_filename)

section \<open>Properties of the serialization\<close>

lemma convert_fields_result:
  assumes "convert_fields w fs rcd = Inr out" and "distinct fs"
  shows "(\<forall>f \<in> set fs. \<forall>v. rcd f = Some v \<longrightarrow>
            (\<exists>d. as_decimal (decimal_str w) v = Some d \<and> out f = Some (PFloat (float_of_decimal d))))
       \<and> (\<forall>k. k \<notin> set fs \<longrightarrow> out k = rcd k)"
  using assms
proof (induction fs arbitrary: rcd)
  case Nil
  then show ?case by simp
next
  case (Cons f fs)
  show ?case
  proof (cases "rcd f")
    case None
    with Cons.prems have "convert_fields w fs rcd = Inr out" by simp
    from Cons.IH [OF this] Cons.prems(2) None show ?thesis by auto
  next
    case (Some v)
    with Cons.prems(1) obtain x where x: "parse_decimal (decimal_str w) v = Some x"
      and rest: "convert_fields w fs (rcd(f \<mapsto> PFloat x)) = Inr out"
      by (auto split: option.splits)
    from x obtain d where d: "as_decimal (decimal_str w) v = Some d" "x = float_of_decimal d"
      by (auto simp: parse_decimal_def)
    from Cons.IH [OF rest] Cons.prems(2)
    have ih: "\<forall>g \<in> set fs. \<forall>u. (rcd(f \<mapsto> PFloat x)) g = Some u \<longrightarrow>
            (\<exists>d. as_decimal (decimal_str w) u = Some d \<and> out g = Some (PFloat (float_of_decimal d)))"
      and keep: "\<forall>k. k \<notin> set fs \<longrightarrow> out k = (rcd(f \<mapsto> PFloat x)) k"
      by auto
    from Cons.prems(2) have "f \<notin> set fs" by simp
    with keep have "out f = Some (PFloat x)" by simp
    then have head: "\<exists>d. as_decimal (decimal_str w) v = Some d
        \<and> out f = Some (PFloat (float_of_decimal d))"
      using d by simp
    have tail: "\<exists>d. as_decimal (decimal_str w) u = Some d \<and> out g = Some (PFloat (float_of_decimal d))"
      if "g \<in> set fs" and "rcd g = Some u" for g u
    proof -
      from that(1) \<open>f \<notin> set fs\<close> have "g \<noteq> f" by auto
      with that(2) have "(rcd(f \<mapsto> PFloat x)) g = Some u" by simp
      with ih that(1) show ?thesis by blast
    qed
    have other: "out k = rcd k" if "k \<notin> set (f # fs)" for k
      using that keep by simp
    from head tail other Some show ?thesis by auto

  qed
qed

lemma serialize_numeric:
  assumes "serialize_invoice_record w invoice = Inr out"
    and "f \<in> set numeric_fields" and "invoice f = Some v"
  shows "\<exists>d. as_decimal (decimal_str w) v = Some d \<and> out f = Some (PFloat (float_of_decimal d))"
proof -
  from assms(1) obtain rcd url where
    c: "convert_fields w numeric_fields invoice = Inr rcd"
    and out: "out = (rcd(''generated_at'' \<mapsto> iso_or_none w (dict_get rcd ''generated_at''),
        ''created_at'' \<mapsto> iso_or_none w
           (dict_get (rcd(''generated_at'' \<mapsto> iso_or_none w (dict_get rcd ''generated_at'')))
              ''created_at''),
        ''updated_at'' \<mapsto> iso_or_none w
           (dict_get (rcd(''generated_at'' \<mapsto> iso_or_none w (dict_get rcd ''generated_at''),
               ''created_at'' \<mapsto> iso_or_none w
                 (dict_get (rcd(''generated_at'' \<mapsto> iso_or_none w (dict_get rcd ''generated_at'')))
                    ''created_at''))) ''updated_at''),
        ''pdf_url'' \<mapsto> url))"
    by (auto simp: serialize_invoice_record_def Let_def split: sum.splits)
  have "distinct numeric_fields" by (simp add: numeric_fields_def)
  from convert_fields_result [OF c this] assms(2,3) obtain d where
    d: "as_decimal (decimal_str w) v = Some d" "rcd f = Some (PFloat (float_of_decimal d))"
    by blast
  from assms(2) have "f \<noteq> ''generated_at''" "f \<noteq> ''created_at''" "f \<noteq> ''updated_at''"
    "f \<noteq> ''pdf_url''"
    by (auto simp: numeric_fields_def)
  then have "out f = rcd f" by (simp add: out)
  with d show ?thesis by simp
qed


lemma convert_fields_succeeds:
  assumes "distinct fs"
    and "\<forall>f \<in> set fs. \<forall>v. rcd f = Some v \<longrightarrow> as_decimal (decimal_str w) v \<noteq> None"
  shows "\<exists>out. convert_fields w fs rcd = Inr out"
  using assms
proof (induction fs arbitrary: rcd)
  case Nil
  then show ?case by simp
next
  case (Cons f fs)
  from Cons.prems(1) have dist: "distinct fs" and nf: "f \<notin> set fs" by simp_all
  show ?case
  proof (cases "rcd f")
    case None
    have "\<exists>out. convert_fields w fs rcd = Inr out"
      using dist Cons.prems(2) by (intro Cons.IH) simp_all
    with None show ?thesis by simp
  next
    case (Some v)
    with Cons.prems(2) obtain d where d: "as_decimal (decimal_str w) v = Some d" by auto
    let ?r = "rcd(f \<mapsto> PFloat (float_of_decimal d))"
    have "\<forall>g \<in> set fs. \<forall>u. ?r g = Some u \<longrightarrow> as_decimal (decimal_str w) u \<noteq> None"
      using Cons.prems(2) nf by auto
    with dist have "\<exists>out. convert_fields w fs ?r = Inr out"
      by (rule Cons.IH)
    then show ?thesis
      using Some d by (simp add: parse_decimal_def)
  qed
qed

lemma as_decimal_db_value:
  "as_decimal c (PDecimal d) = Some d" "as_decimal c PNone = Some (Decimal 0 0)"
  by (simp_all add: as_decimal_def)

lemma serialize_db_row:
  assumes "db_row invoice"
  shows "\<exists>out. serialize_invoice_record w invoice = Inr out"
proof -
  have ok: "\<forall>f \<in> set numeric_fields. \<forall>v. invoice f = Some v \<longrightarrow> as_decimal (decimal_str w) v \<noteq> None"
  proof (intro ballI allI impI)
    fix f v assume "f \<in> set numeric_fields" "invoice f = Some v"
    with assms have "(\<exists>d. v = PDecimal d) \<or> v = PNone"
      unfolding db_row_def by (cases v) (force split: option.splits)+
    then show "as_decimal (decimal_str w) v \<noteq> None"
      by (auto simp: as_decimal_db_value)
  qed
  have dist: "distinct numeric_fields" and nu: "''pdf_url'' \<notin> set numeric_fields"
    by (simp_all add: numeric_fields_def)
  from convert_fields_succeeds [OF dist ok] obtain rcd where
    c: "convert_fields w numeric_fields invoice = Inr rcd"
    by blast
  from convert_fields_result [OF c dist] nu have "rcd ''pdf_url'' = invoice ''pdf_url''"
    by blast
  then have u: "dict_get rcd ''pdf_url'' = dict_get invoice ''pdf_url''"
    by (simp add: dict_get_def)
  from assms have "dict_get invoice ''pdf_url'' = PNone \<or> (\<exists>s. dict_get invoice ''pdf_url'' = PStr s)"
    unfolding db_row_def by (cases "dict_get invoice ''pdf_url''") simp_all
  then have "\<exists>url. absolute_invoice_url w (dict_get invoice ''pdf_url'') = Inr url"
    by (auto simp: absolute_invoice_url_def split: option.splits)
  then show ?thesis
    using c u by (auto simp: serialize_invoice_record_def Let_def dict_get_def)
qed

lemma serialized_field_db_row:
  assumes "db_row r" and "f \<in> set numeric_fields" and "r f = Some (PDecimal d)"
  shows "serialized_field f (serialize_invoice_record w r) = Some (PFloat (float_of_decimal d))"
proof -
  from serialize_db_row [OF assms(1)] obtain out where o: "serialize_invoice_record w r = Inr out"
    by blast
  from serialize_numeric [OF o assms(2,3)] have "out f = Some (PFloat (float_of_decimal d))"
    by (simp add: as_decimal_db_value)
  with o show ?thesis by (simp add: serialized_field_def)
qed

lemmas float_eval = float_of_decimal_def floor_log2_def round_nearest_even_def bit_length.simps
  Let_def power_int_minus

lemma float_2999_00: "float_of_decimal (Decimal 299900 (- 2)) = Float 2999"
  by (simp add: float_eval)

lemma float_2999_10:
  "float_of_decimal (Decimal 299910 (- 2)) = Float (6595090645726003 / 2199023255552)"
  by (simp add: float_eval)

text \<open>
  C4, as the code has it. The amounts of an invoice are computed on Decimals
  (\<open>create_invoice_amounts\<close> above takes and returns nothing else), but the record sent
  over the wire does not keep them: \<^verbatim>\<open>serialize_invoice_record\<close> succeeds on every row
  of the database, and each monetary field present in the row comes out as the binary
  float \<^verbatim>\<open>float(as_decimal(v))\<close>. The float equals the decimal only where the decimal
  is a binary fraction: the witness is a total of 2999.00, the counterexample a total of
  2999.10, whose serialized value is not 2999.10.
\<close>

theorem serialize_invoice_record_floats:
  "(db_row invoice \<longrightarrow> (\<exists>out. serialize_invoice_record w invoice = Inr out))
   \<and> (\<forall>out f v.
         serialize_invoice_record w invoice = Inr out \<and> f \<in> set numeric_fields \<and> invoice f = Some v
         \<longrightarrow> (\<exists>d. as_decimal (decimal_str w) v = Some d
                  \<and> out f = Some (PFloat (float_of_decimal d))))"
  using serialize_db_row [of invoice w] serialize_numeric [of w invoice] by blast

theorem serialize_invoice_record_floats_witness:
  "db_row [''invoice_number'' \<mapsto> PStr ''INV2025110007'',
           ''total'' \<mapsto> PDecimal (Decimal 299900 (- 2)),
           ''pdf_url'' \<mapsto> PStr ''/files/invoices/INV_20251103T093000_7.pdf'']
   \<and> ''total'' \<in> set numeric_fields
   \<and> serialized_field ''total''
         (serialize_invoice_record sample_wire
            [''invoice_number'' \<mapsto> PStr ''INV2025110007'',
             ''total'' \<mapsto> PDecimal (Decimal 299900 (- 2)),
             ''pdf_url'' \<mapsto> PStr ''/files/invoices/INV_20251103T093000_7.pdf''])
       = Some (PFloat (Float 2999))"
proof -
  let ?r = "[''invoice_number'' \<mapsto> PStr ''INV2025110007'',
           ''total'' \<mapsto> PDecimal (Decimal 299900 (- 2)),
           ''pdf_url'' \<mapsto> PStr ''/files/invoices/INV_20251103T093000_7.pdf'']"
  have r: "db_row ?r"
    by (simp add: db_row_def numeric_fields_def dict_get_def)
  have f: "''total'' \<in> set numeric_fields"
    by (simp add: numeric_fields_def)
  have v: "?r ''total'' = Some (PDecimal (Decimal 299900 (- 2)))"
    by simp
  note t = serialize_invoice_record_floats [of ?r sample_wire]
  from t r obtain out where o: "serialize_invoice_record sample_wire ?r = Inr out"
    by blast
  with t f v obtain d where
    "as_decimal (decimal_str sample_wire) (PDecimal (Decimal 299900 (- 2))) = Some d"
    "out ''total'' = Some (PFloat (float_of_decimal d))"
    by blast
  then have "out ''total'' = Some (PFloat (Float 2999))"
    using float_2999_00 by (auto simp: as_decimal_db_value)
  with o have "serialized_field ''total'' (serialize_invoice_record sample_wire ?r)
      = Some (PFloat (Float 2999))"
    by (simp add: serialized_field_def)
  with r f show ?thesis by blast
qed

theorem serialize_total_not_exact_counterexample:
  "serialized_field ''total''
     (serialize_invoice_record sample_wire
        [''invoice_number'' \<mapsto> PStr ''INV2025110007'',
         ''total'' \<mapsto> PDecimal (Decimal 299910 (- 2)),
         ''pdf_url'' \<mapsto> PStr ''/files/invoices/INV_20251103T093000_7.pdf''])
     = Some (PFloat (Float (6595090645726003 / 2199023255552)))
   \<and> dec_val (Decimal 299910 (- 2)) = 29991 / 10
   \<and> (6595090645726003 / 2199023255552 :: rat) \<noteq> 29991 / 10"
proof -
  let ?r = "[''invoice_number'' \<mapsto> PStr ''INV2025110007'',
           ''total'' \<mapsto> PDecimal (Decimal 299910 (- 2)),
           ''pdf_url'' \<mapsto> PStr ''/files/invoices/INV_20251103T093000_7.pdf'']"
  have r: "db_row ?r"
    by (simp add: db_row_def numeric_fields_def dict_get_def)
  have f: "''total'' \<in> set numeric_fields"
    by (simp add: numeric_fields_def)
  have v: "?r ''total'' = Some (PDecimal (Decimal 299910 (- 2)))"
    by simp
  have 1: "serialized_field ''total'' (serialize_invoice_record sample_wire ?r)
      = Some (PFloat (Float (6595090645726003 / 2199023255552)))"
    using serialized_field_db_row [OF r f v, of sample_wire] by (simp only: float_2999_10)
  have 2: "dec_val (Decimal 299910 (- 2)) = 29991 / 10"
    by (simp add: dec_val_def power_int_minus)
  have 3: "(6595090645726003 / 2199023255552 :: rat) \<noteq> 29991 / 10"
    by simp
  from 1 2 3 show ?thesis by blast
qed

end
